theory Spec2Isabelle
  imports Complex_Main "HOL-Library.Word"
begin

section \<open>Data model of \<^verbatim>\<open>App.tsx\<close>\<close>

text \<open>
  The component of \<^verbatim>\<open>src/App.tsx\<close> is modelled as a record of its React state, its
  private fields, the part of the browser it reads and writes (two canvases, the window
  width) and the JavaScript job queues its promises run on. Every method is a function
  from that record to the updated record.

  The types and functions the file imports from \<^verbatim>\<open>./canvas\<close> and \<^verbatim>\<open>./config\<close> are not
  part of the file: their types are type variables (\<open>'b\<close> the decoded \<^verbatim>\<open>AudioBuffer\<close>,
  \<open>'c\<close> the configuration, \<open>'v\<close> a \<^verbatim>\<open>LabeledFieldValue\<close>) and the functions are the fields
  of the record \<open>platform\<close>, over which every theorem is quantified.
\<close>

type_synonym byte = "8 word"

text \<open>One pixel of a canvas or of an \<^verbatim>\<open>ImageData\<close>: red, green, blue, alpha.\<close>

type_synonym rgba = "byte \<times> byte \<times> byte \<times> byte"

text \<open>A \<^verbatim>\<open>File\<close> of \<^verbatim>\<open>props.audioFiles\<close>: its name and the bytes a \<^verbatim>\<open>FileReader\<close> loads.\<close>

record File =
  name :: string
  content :: "byte list"

text \<open>
  \<^verbatim>\<open>SpectrumFftData\<close>: the file reads only its field \<^verbatim>\<open>spectrumBins\<close>, which it uses as a
  canvas height.
\<close>

record SpectrumFftData =
  spectrumBins :: nat

record 'b AudioData =
  audioBuffer :: 'b
  spectrumFftData :: SpectrumFftData

text \<open>
  \<^verbatim>\<open>ImageData\<close>: \<open>data\<close> holds the pixels row by row (the four bytes of a pixel are kept
  together as one \<open>rgba\<close>).
\<close>

record ImageData =
  width :: nat
  height :: nat
  data :: "rgba list"

text \<open>A canvas element with its bitmap, row by row.\<close>

record canvas =
  canvas_width :: nat
  canvas_height :: nat
  bitmap :: "rgba list"

text \<open>
  The two drawing contexts of the component: the one of the canvas on the page
  (\<^verbatim>\<open>spectrogramRef.current\<close>) and \<^verbatim>\<open>internalCanvasCtx\<close>.
\<close>

datatype surface = Visible | Internal

record ('b, 'c) RenderConfig =
  fileIndex :: int
  ctx :: surface
  rc_audioBuffer :: 'b
  snatcitConfig :: 'c

text \<open>
  A JavaScript number as \<^verbatim>\<open>Number(change.target.value)\<close> returns it. Clamping compares
  and selects, it never rounds, so a finite double is represented by its exact value.
\<close>

datatype jsnum = NaN | PosInfinity | NegInfinity | Finite real

datatype error = TypeError | IndexSizeError | NoCanvasContext

text \<open>The two members of the \<^verbatim>\<open>renderers\<close> array every call site passes.\<close>

datatype renderer = RenderSpectrogramUsingCache | RenderMarkings

subsection \<open>Promises and the job queues\<close>

text \<open>
  A promise is a number into the store \<open>promises\<close>. The callbacks the file passes to
  \<^verbatim>\<open>then\<close> are the constructors of \<open>cont\<close>, each with the variables its closure
  captures:
  \<^item> \<open>UseThen\<close>: lines 294-303, the callback of \<^verbatim>\<open>useSelectedAudioFileToRender\<close>;
  \<^item> \<open>SpectrogramThen\<close>: lines 232-254, the callback of \<^verbatim>\<open>getSpectrogramImageData\<close>;
  \<^item> \<open>PutThen\<close>: lines 191-195, the callback of \<^verbatim>\<open>renderSpectrogramUsingCache\<close>;
  \<^item> \<open>StyleThen\<close>: lines 267-275, the callback of \<^verbatim>\<open>resizeAndRerenderCanvas\<close>.
\<close>

datatype 'b val = VAudio "'b AudioData" | VImage ImageData | VUndefined

datatype 'v cont =
    UseThen "renderer list" "'v list"
  | SpectrogramThen int
  | PutThen
  | StyleThen

datatype ('b, 'v) pstate =
    Pending "('v cont \<times> nat) list"
  | Fulfilled "'b val"
  | Rejected error

text \<open>
  A job of the microtask queue: run a \<^verbatim>\<open>then\<close> callback on the value of a fulfilled
  promise and settle the derived promise with its outcome, or pass a rejection on to
  the derived promise (the file gives no rejection handler anywhere).
\<close>

datatype ('b, 'v) job =
    ReactionJob "'v cont" nat "'b val"
  | RejectionJob nat error

text \<open>
  What the browser still owes the component: the \<^verbatim>\<open>load\<close> event of a \<^verbatim>\<open>FileReader\<close>
  (line 205) and the completion of \<^verbatim>\<open>decodeAudioData\<close> (line 207), each with the index
  and the promise whose \<^verbatim>\<open>resolve\<close> the closure holds.
\<close>

datatype io = FileRead File int nat | Decode "byte list" int nat

text \<open>
  The calls to the collaborators and to the visible surface, in the order they happen.
  \<open>trace\<close> is the only field of the model that the program does not have.
\<close>

datatype event =
    EvDecode int
  | EvAnalyze int
  | EvRenderSpectrogram int
  | EvPutImageData ImageData
  | EvRenderMarkings int

record ('b, 'c, 'v) app =
  audioFiles :: "File list"
  initialConfig :: 'c
  volume :: real
  isPlaying :: bool
  selectedIndex :: int
  config :: 'c
  spectrogramCanvas :: canvas
  canvasAttached :: bool
  internalCanvas :: canvas
  audioDataCache :: "int \<rightharpoonup> 'b AudioData"
  spectrogramImageDataCache :: "int \<rightharpoonup> ImageData"
  resizeListener :: bool
  innerWidth :: nat
  promises :: "nat \<Rightarrow> ('b, 'v) pstate"
  nextPromise :: nat
  microtasks :: "('b, 'v) job list"
  pendingIO :: "io list"
  trace :: "event list"

text \<open>
  The imported functions. \<open>decodeAudioData\<close> is \<open>None\<close> when the browser cannot decode
  the bytes. The two renderers draw on the canvas of the context they are given and
  return; \<open>getAllFieldValuesForEntry\<close> returns \<^verbatim>\<open>computedValues\<close> and
  \<^verbatim>\<open>namesOfDerivedFieldsThatCouldNotBeComputed\<close>.
\<close>

record ('b, 'c, 'v) platform =
  decodeAudioData :: "byte list \<Rightarrow> 'b option"
  getSpectrumFftData :: "'b \<Rightarrow> 'c \<Rightarrow> SpectrumFftData"
  renderSpectrogram :: "('b, 'c) RenderConfig \<Rightarrow> canvas \<Rightarrow> canvas"
  renderMarkings :: "('b, 'c) RenderConfig \<Rightarrow> 'v list \<Rightarrow> canvas \<Rightarrow> canvas"
  getAllFieldValuesForEntry :: "'c \<Rightarrow> string \<Rightarrow> 'v list \<times> string list"

section \<open>The canvas operations the file calls\<close>

definition transparent :: rgba where
  "transparent = (0, 0, 0, 0)"

definition pixelAt :: "canvas \<Rightarrow> nat \<Rightarrow> nat \<Rightarrow> rgba" where
  "pixelAt c x y =
     (if x < canvas_width c \<and> y < canvas_height c \<and> y * canvas_width c + x < length (bitmap c)
      then bitmap c ! (y * canvas_width c + x) else transparent)"

text \<open>Assigning \<^verbatim>\<open>canvas.width\<close> or \<^verbatim>\<open>canvas.height\<close> clears the bitmap.\<close>

definition setWidth :: "nat \<Rightarrow> canvas \<Rightarrow> canvas" where
  "setWidth w c = c\<lparr>canvas_width := w, bitmap := replicate (w * canvas_height c) transparent\<rparr>"

definition setHeight :: "nat \<Rightarrow> canvas \<Rightarrow> canvas" where
  "setHeight h c = c\<lparr>canvas_height := h, bitmap := replicate (canvas_width c * h) transparent\<rparr>"

text \<open>
  \<^verbatim>\<open>ctx.getImageData(sx, sy, sw, sh)\<close>: the canvas API raises \<^verbatim>\<open>IndexSizeError\<close> when
  \<open>sw\<close> or \<open>sh\<close> is zero; otherwise the result is \<open>sw\<close> wide and \<open>sh\<close> high, and a
  pixel outside the canvas is transparent black.
\<close>

definition getImageData :: "canvas \<Rightarrow> nat \<Rightarrow> nat \<Rightarrow> nat \<Rightarrow> nat \<Rightarrow> error + ImageData" where
  "getImageData c sx sy sw sh =
     (if sw = 0 \<or> sh = 0 then Inl IndexSizeError
      else Inr \<lparr>width = sw, height = sh,
                data = concat (map (\<lambda>y. map (\<lambda>x. pixelAt c (sx + x) (sy + y)) [0..<sw]) [0..<sh])\<rparr>)"

text \<open>\<^verbatim>\<open>ctx.putImageData(img, dx, dy)\<close> overwrites the pixels the image covers.\<close>

definition putImageData :: "ImageData \<Rightarrow> nat \<Rightarrow> nat \<Rightarrow> canvas \<Rightarrow> canvas" where
  "putImageData img dx dy c =
     c\<lparr>bitmap := concat (map (\<lambda>y. map (\<lambda>x.
          if dx \<le> x \<and> x < dx + width img \<and> dy \<le> y \<and> y < dy + height img
             \<and> (y - dy) * width img + (x - dx) < length (data img)
          then data img ! ((y - dy) * width img + (x - dx))
          else pixelAt c x y) [0..<canvas_width c]) [0..<canvas_height c])\<rparr>"

section \<open>Promises\<close>

text \<open>\<^verbatim>\<open>new Promise\<close>: a fresh pending promise.\<close>

definition newPromise :: "('b, 'c, 'v) app \<Rightarrow> nat \<times> ('b, 'c, 'v) app" where
  "newPromise s =
     (nextPromise s,
      s\<lparr>promises := (promises s)(nextPromise s := Pending []), nextPromise := Suc (nextPromise s)\<rparr>)"

definition enqueue :: "('b, 'v) job \<Rightarrow> ('b, 'c, 'v) app \<Rightarrow> ('b, 'c, 'v) app" where
  "enqueue j s = s\<lparr>microtasks := microtasks s @ [j]\<rparr>"

text \<open>
  Settling a promise queues one job for each callback registered on it, in the order of
  registration; settling a settled promise does nothing.
\<close>

definition fulfil :: "nat \<Rightarrow> 'b val \<Rightarrow> ('b, 'c, 'v) app \<Rightarrow> ('b, 'c, 'v) app" where
  "fulfil p v s =
     (case promises s p of
        Pending rs \<Rightarrow>
          s\<lparr>promises := (promises s)(p := Fulfilled v),
            microtasks := microtasks s @ map (\<lambda>(k, q). ReactionJob k q v) rs\<rparr>
      | _ \<Rightarrow> s)"

definition reject :: "nat \<Rightarrow> error \<Rightarrow> ('b, 'c, 'v) app \<Rightarrow> ('b, 'c, 'v) app" where
  "reject p e s =
     (case promises s p of
        Pending rs \<Rightarrow>
          s\<lparr>promises := (promises s)(p := Rejected e),
            microtasks := microtasks s @ map (\<lambda>(k, q). RejectionJob q e) rs\<rparr>
      | _ \<Rightarrow> s)"

text \<open>\<^verbatim>\<open>Promise.resolve(v)\<close> for a value that is not a promise.\<close>

definition promiseResolve :: "'b val \<Rightarrow> ('b, 'c, 'v) app \<Rightarrow> nat \<times> ('b, 'c, 'v) app" where
  "promiseResolve v s = (let (p, s1) = newPromise s in (p, fulfil p v s1))"

text \<open>
  \<^verbatim>\<open>p.then(k)\<close>: the derived promise is returned at once. The callback never runs
  inside the call: on a settled promise a job is queued, on a pending one the callback
  is registered.
\<close>

definition thenP :: "nat \<Rightarrow> 'v cont \<Rightarrow> ('b, 'c, 'v) app \<Rightarrow> nat \<times> ('b, 'c, 'v) app" where
  "thenP p k s =
     (let (q, s1) = newPromise s in
      case promises s1 p of
        Pending rs \<Rightarrow> (q, s1\<lparr>promises := (promises s1)(p := Pending (rs @ [(k, q)]))\<rparr>)
      | Fulfilled v \<Rightarrow> (q, enqueue (ReactionJob k q v) s1)
      | Rejected e \<Rightarrow> (q, enqueue (RejectionJob q e) s1))"

section \<open>The cache layer\<close>

text \<open>\<^verbatim>\<open>this.props.audioFiles[i]\<close>, \<open>None\<close> for \<^verbatim>\<open>undefined\<close>.\<close>

definition fileAt :: "('b, 'c, 'v) app \<Rightarrow> int \<Rightarrow> File option" where
  "fileAt s i =
     (if 0 \<le> i \<and> i < int (length (audioFiles s)) then Some (audioFiles s ! nat i) else None)"

text \<open>
  \<^verbatim>\<open>getAudioData\<close> (lines 198-223). On a miss the executor of the new promise starts
  the \<^verbatim>\<open>FileReader\<close>; \<^verbatim>\<open>readAsArrayBuffer(undefined)\<close> raises inside the executor, which
  rejects the promise. The executor has no other path to \<^verbatim>\<open>reject\<close>.
\<close>

definition getAudioData :: "int \<Rightarrow> ('b, 'c, 'v) app \<Rightarrow> nat \<times> ('b, 'c, 'v) app" where
  "getAudioData index s =
     (case audioDataCache s index of
        Some cachedData \<Rightarrow> promiseResolve (VAudio cachedData) s
      | None \<Rightarrow>
          (let (p, s1) = newPromise s in
           case fileAt s1 index of
             None \<Rightarrow> (p, reject p TypeError s1)
           | Some f \<Rightarrow> (p, s1\<lparr>pendingIO := pendingIO s1 @ [FileRead f index p]\<rparr>)))"

text \<open>
  The two events the browser answers a read with. At \<^verbatim>\<open>load\<close> (line 205) the bytes
  go to \<^verbatim>\<open>decodeAudioData\<close>, which is given a success callback only (lines 207-219):
  when decoding fails nothing of the component runs.
\<close>

fun completeIO :: "('b, 'c, 'v) platform \<Rightarrow> io \<Rightarrow> ('b, 'c, 'v) app \<Rightarrow> ('b, 'c, 'v) app" where
  "completeIO pf (FileRead f index p) s =
     s\<lparr>pendingIO := pendingIO s @ [Decode (content f) index p],
       trace := trace s @ [EvDecode index]\<rparr>"
| "completeIO pf (Decode bytes index p) s =
     (case decodeAudioData pf bytes of
        None \<Rightarrow> s
      | Some buf \<Rightarrow>
          (let spectrumData = getSpectrumFftData pf buf (config s);
               d = \<lparr>audioBuffer = buf, spectrumFftData = spectrumData\<rparr>;
               s1 = s\<lparr>audioDataCache := (audioDataCache s)(index \<mapsto> d),
                      trace := trace s @ [EvAnalyze index]\<rparr>
           in fulfil p (VAudio d) s1))"

text \<open>\<^verbatim>\<open>getSpectrogramImageData\<close> (lines 225-256), up to the registration of its callback.\<close>

definition getSpectrogramImageData :: "int \<Rightarrow> ('b, 'c, 'v) app \<Rightarrow> nat \<times> ('b, 'c, 'v) app" where
  "getSpectrogramImageData index s =
     (case spectrogramImageDataCache s index of
        Some cachedData \<Rightarrow> promiseResolve (VImage cachedData) s
      | None \<Rightarrow> (let (p, s1) = getAudioData index s in thenP p (SpectrogramThen index) s1))"

section \<open>Rendering\<close>

text \<open>\<^verbatim>\<open>renderSpectrogramUsingCache\<close> (lines 185-196), up to the registration of its callback.\<close>

definition renderSpectrogramUsingCache ::
    "('b, 'c) RenderConfig \<Rightarrow> ('b, 'c, 'v) app \<Rightarrow> ('b, 'c, 'v) app" where
  "renderSpectrogramUsingCache renderConfig s =
     (if \<not> canvasAttached s then s
      else (let (p, s1) = getSpectrogramImageData (fileIndex renderConfig) s;
                (q, s2) = thenP p PutThen s1
            in s2))"

definition drawOn :: "surface \<Rightarrow> (canvas \<Rightarrow> canvas) \<Rightarrow> ('b, 'c, 'v) app \<Rightarrow> ('b, 'c, 'v) app" where
  "drawOn target f s =
     (case target of
        Visible \<Rightarrow> s\<lparr>spectrogramCanvas := f (spectrogramCanvas s)\<rparr>
      | Internal \<Rightarrow> s\<lparr>internalCanvas := f (internalCanvas s)\<rparr>)"

text \<open>One call \<^verbatim>\<open>render(renderConfig, computedValues)\<close> of line 302.\<close>

fun callRenderer ::
    "('b, 'c, 'v) platform \<Rightarrow> renderer \<Rightarrow> ('b, 'c) RenderConfig \<Rightarrow> 'v list \<Rightarrow>
     ('b, 'c, 'v) app \<Rightarrow> ('b, 'c, 'v) app" where
  "callRenderer pf RenderSpectrogramUsingCache rc computedValues s =
     renderSpectrogramUsingCache rc s"
| "callRenderer pf RenderMarkings rc computedValues s =
     (drawOn (ctx rc) (renderMarkings pf rc computedValues) s)
       \<lparr>trace := trace s @ [EvRenderMarkings (fileIndex rc)]\<rparr>"

text \<open>
  The bodies of the four \<^verbatim>\<open>then\<close> callbacks: the value returned or the error raised,
  and the state. A callback applied to a value of another type than its parameter's does
  not occur in a well-typed run; it is a \<open>TypeError\<close> here.
\<close>

fun callback ::
    "('b, 'c, 'v) platform \<Rightarrow> 'v cont \<Rightarrow> 'b val \<Rightarrow> ('b, 'c, 'v) app \<Rightarrow>
     (error + 'b val) \<times> ('b, 'c, 'v) app" where
  "callback pf (UseThen renderers computedValues) (VAudio audioData) s =
     (let renderConfig = \<lparr>fileIndex = selectedIndex s, ctx = Visible,
                           rc_audioBuffer = audioBuffer audioData, snatcitConfig = config s\<rparr>
      in (Inr VUndefined,
          fold (\<lambda>render. callRenderer pf render renderConfig computedValues) renderers s))"
| "callback pf (SpectrogramThen index) (VAudio audioData) s =
     (let canvasWidth = innerWidth s;
          canvasHeight = spectrumBins (spectrumFftData audioData);
          s1 = s\<lparr>internalCanvas := setHeight canvasHeight (setWidth canvasWidth (internalCanvas s))\<rparr>;
          s2 = (drawOn Internal
                  (renderSpectrogram pf \<lparr>fileIndex = index, ctx = Internal,
                     rc_audioBuffer = audioBuffer audioData, snatcitConfig = config s1\<rparr>) s1)
                 \<lparr>trace := trace s1 @ [EvRenderSpectrogram index]\<rparr>
      in case getImageData (internalCanvas s2) 0 0 canvasWidth canvasHeight of
           Inl e \<Rightarrow> (Inl e, s2)
         | Inr imgData \<Rightarrow>
             (Inr (VImage imgData),
              s2\<lparr>spectrogramImageDataCache := (spectrogramImageDataCache s2)(index \<mapsto> imgData)\<rparr>))"
| "callback pf PutThen (VImage imgData) s =
     (Inr VUndefined,
      s\<lparr>spectrogramCanvas :=
          putImageData imgData 0 0
            (setHeight (height imgData) (setWidth (width imgData) (spectrogramCanvas s))),
        trace := trace s @ [EvPutImageData imgData]\<rparr>)"
| "callback pf StyleThen v s = (Inr VUndefined, s)"
| "callback pf (UseThen renderers computedValues) v s = (Inl TypeError, s)"
| "callback pf (SpectrogramThen index) v s = (Inl TypeError, s)"
| "callback pf PutThen v s = (Inl TypeError, s)"

text \<open>Running one job of the microtask queue.\<close>

fun runJob :: "('b, 'c, 'v) platform \<Rightarrow> ('b, 'v) job \<Rightarrow> ('b, 'c, 'v) app \<Rightarrow> ('b, 'c, 'v) app" where
  "runJob pf (ReactionJob k q v) s =
     (case callback pf k v s of
        (Inr r, s1) \<Rightarrow> fulfil q r s1
      | (Inl e, s1) \<Rightarrow> reject q e s1)"
| "runJob pf (RejectionJob q e) s = reject q e s"

text \<open>
  \<^verbatim>\<open>useSelectedAudioFileToRender\<close> (lines 278-304): the render request. Reading
  \<^verbatim>\<open>.name\<close> of \<^verbatim>\<open>undefined\<close> raises before anything is changed.
\<close>

definition useSelectedAudioFileToRender ::
    "('b, 'c, 'v) platform \<Rightarrow> renderer list \<Rightarrow> ('b, 'c, 'v) app \<Rightarrow>
     (error + nat) \<times> ('b, 'c, 'v) app" where
  "useSelectedAudioFileToRender pf renderers s =
     (if \<not> canvasAttached s then (let (p, s1) = promiseResolve VUndefined s in (Inr p, s1))
      else case fileAt s (selectedIndex s) of
             None \<Rightarrow> (Inl TypeError, s)
           | Some f \<Rightarrow>
               (let computedValues = fst (getAllFieldValuesForEntry pf (config s) (name f));
                    (p, s1) = getAudioData (selectedIndex s) s;
                    (q, s2) = thenP p (UseThen renderers computedValues) s1
                in (Inr q, s2)))"

definition bothRenderers :: "renderer list" where
  "bothRenderers = [RenderSpectrogramUsingCache, RenderMarkings]"

text \<open>\<^verbatim>\<open>resizeAndRerenderCanvas\<close> (lines 258-276).\<close>

definition resizeAndRerenderCanvas ::
    "('b, 'c, 'v) platform \<Rightarrow> ('b, 'c, 'v) app \<Rightarrow> (error + unit) \<times> ('b, 'c, 'v) app" where
  "resizeAndRerenderCanvas pf s =
     (if \<not> canvasAttached s then (Inr (), s)
      else case useSelectedAudioFileToRender pf bothRenderers s of
             (Inl e, s1) \<Rightarrow> (Inl e, s1)
           | (Inr p, s1) \<Rightarrow> (let (q, s2) = thenP p StyleThen s1 in (Inr (), s2)))"

text \<open>\<^verbatim>\<open>windowOnResize\<close> (lines 180-183).\<close>

definition windowOnResize ::
    "('b, 'c, 'v) platform \<Rightarrow> ('b, 'c, 'v) app \<Rightarrow> (error + unit) \<times> ('b, 'c, 'v) app" where
  "windowOnResize pf s = resizeAndRerenderCanvas pf (s\<lparr>spectrogramImageDataCache := Map.empty\<rparr>)"

section \<open>The React lifecycle and the event handlers\<close>

definition blankCanvas :: canvas where
  "blankCanvas = \<lparr>canvas_width = 300, canvas_height = 150,
                   bitmap = replicate (300 * 150) transparent\<rparr>"

text \<open>
  The constructor (lines 20-49), for a window \<open>w\<close> pixels wide. It raises when the
  browser gives no 2d context (\<open>canvas2d\<close> false).
\<close>

definition initialApp :: "nat \<Rightarrow> File list \<Rightarrow> 'c \<Rightarrow> ('b, 'c, 'v) app" where
  "initialApp w files cfg =
     \<lparr>audioFiles = files, initialConfig = cfg,
      volume = 1, isPlaying = False, selectedIndex = 0, config = cfg,
      spectrogramCanvas = blankCanvas, canvasAttached = False,
      internalCanvas = blankCanvas,
      audioDataCache = Map.empty, spectrogramImageDataCache = Map.empty,
      resizeListener = False, innerWidth = w,
      promises = (\<lambda>_. Pending []), nextPromise = 0,
      microtasks = [], pendingIO = [], trace = []\<rparr>"

definition constructor ::
    "bool \<Rightarrow> nat \<Rightarrow> File list \<Rightarrow> 'c \<Rightarrow> error + ('b, 'c, 'v) app" where
  "constructor canvas2d w files cfg =
     (if \<not> canvas2d then Inl NoCanvasContext else Inr (initialApp w files cfg))"

text \<open>
  \<^verbatim>\<open>render\<close> (lines 64-131) changes nothing; it raises when the selected file is
  \<^verbatim>\<open>undefined\<close> (line 70).
\<close>

definition render :: "('b, 'c, 'v) app \<Rightarrow> error + unit" where
  "render s = (case fileAt s (selectedIndex s) of None \<Rightarrow> Inl TypeError | Some f \<Rightarrow> Inr ())"

definition componentDidUpdate ::
    "('b, 'c, 'v) platform \<Rightarrow> ('b, 'c, 'v) app \<Rightarrow> (error + unit) \<times> ('b, 'c, 'v) app" where
  "componentDidUpdate pf s = resizeAndRerenderCanvas pf s"

text \<open>
  \<^verbatim>\<open>this.setState(update, callback)\<close> in a handler that does nothing after it. On a
  component that is not mounted React drops the call: neither the update nor the callback
  happens. The component is mounted exactly while its canvas is attached (React attaches
  the canvas before \<^verbatim>\<open>componentDidMount\<close> and detaches it at unmounting). On the mounted
  component React merges the update, renders, calls \<^verbatim>\<open>componentDidUpdate\<close> and then the
  callback.
\<close>

definition setState ::
    "('b, 'c, 'v) platform \<Rightarrow> (('b, 'c, 'v) app \<Rightarrow> ('b, 'c, 'v) app) \<Rightarrow>
     (('b, 'c, 'v) app \<Rightarrow> (error + unit) \<times> ('b, 'c, 'v) app) \<Rightarrow>
     ('b, 'c, 'v) app \<Rightarrow> (error + unit) \<times> ('b, 'c, 'v) app" where
  "setState pf update afterwards s =
     (if \<not> canvasAttached s then (Inr (), s)
      else
        (let s1 = update s in
         case render s1 of
           Inl e \<Rightarrow> (Inl e, s1)
         | Inr _ \<Rightarrow>
             (case componentDidUpdate pf s1 of
                (Inl e, s2) \<Rightarrow> (Inl e, s2)
              | (Inr _, s2) \<Rightarrow> afterwards s2)))"

text \<open>The callback the two button handlers give to \<^verbatim>\<open>setState\<close> (lines 139-143, 156-160).\<close>

definition renderAfterSelection ::
    "('b, 'c, 'v) platform \<Rightarrow> ('b, 'c, 'v) app \<Rightarrow> (error + unit) \<times> ('b, 'c, 'v) app" where
  "renderAfterSelection pf s =
     (case useSelectedAudioFileToRender pf bothRenderers s of
        (Inl e, s1) \<Rightarrow> (Inl e, s1)
      | (Inr p, s1) \<Rightarrow> (Inr (), s1))"

text \<open>\<^verbatim>\<open>previousFileButtonOnClick\<close> (lines 133-145).\<close>

definition previousFileButtonOnClick ::
    "('b, 'c, 'v) platform \<Rightarrow> ('b, 'c, 'v) app \<Rightarrow> (error + unit) \<times> ('b, 'c, 'v) app" where
  "previousFileButtonOnClick pf s =
     (let previousIndex = max 0 (selectedIndex s - 1)
      in setState pf (\<lambda>t. t\<lparr>selectedIndex := previousIndex\<rparr>) (renderAfterSelection pf) s)"

text \<open>\<^verbatim>\<open>nextFileButtonOnClick\<close> (lines 147-162).\<close>

definition nextFileButtonOnClick ::
    "('b, 'c, 'v) platform \<Rightarrow> ('b, 'c, 'v) app \<Rightarrow> (error + unit) \<times> ('b, 'c, 'v) app" where
  "nextFileButtonOnClick pf s =
     (let nextIndex = min (int (length (audioFiles s)) - 1) (selectedIndex s + 1)
      in setState pf (\<lambda>t. t\<lparr>selectedIndex := nextIndex\<rparr>) (renderAfterSelection pf) s)"

text \<open>\<^verbatim>\<open>downloadButtonOnClick\<close> (lines 164-166) is empty.\<close>

definition downloadButtonOnClick ::
    "('b, 'c, 'v) app \<Rightarrow> (error + unit) \<times> ('b, 'c, 'v) app" where
  "downloadButtonOnClick s = (Inr (), s)"

text \<open>
  \<^verbatim>\<open>volumeSliderOnChange\<close> (lines 168-178); \<open>unclamped\<close> is the result of
  \<^verbatim>\<open>Number(change.target.value)\<close>.
\<close>

definition volumeSliderOnChange ::
    "('b, 'c, 'v) platform \<Rightarrow> jsnum \<Rightarrow> ('b, 'c, 'v) app \<Rightarrow> (error + unit) \<times> ('b, 'c, 'v) app" where
  "volumeSliderOnChange pf unclamped s =
     (case unclamped of
        Finite x \<Rightarrow>
          (let clampedVolume = max 0 (min x 1)
           in setState pf (\<lambda>t. t\<lparr>volume := clampedVolume\<rparr>) (\<lambda>t. (Inr (), t)) s)
      | _ \<Rightarrow> (Inr (), s))"

text \<open>
  Mounting: React renders, attaches the canvas to \<^verbatim>\<open>spectrogramRef\<close> and calls
  \<^verbatim>\<open>componentDidMount\<close> (lines 51-54). Unmounting calls \<^verbatim>\<open>componentWillUnmount\<close>
  (lines 60-62) and detaches the canvas.
\<close>

definition componentDidMount ::
    "('b, 'c, 'v) platform \<Rightarrow> ('b, 'c, 'v) app \<Rightarrow> (error + unit) \<times> ('b, 'c, 'v) app" where
  "componentDidMount pf s =
     (case resizeAndRerenderCanvas pf s of
        (Inl e, s1) \<Rightarrow> (Inl e, s1)
      | (Inr _, s1) \<Rightarrow> (Inr (), s1\<lparr>resizeListener := True\<rparr>))"

definition mount ::
    "('b, 'c, 'v) platform \<Rightarrow> ('b, 'c, 'v) app \<Rightarrow> (error + unit) \<times> ('b, 'c, 'v) app" where
  "mount pf s =
     (case render s of
        Inl e \<Rightarrow> (Inl e, s)
      | Inr _ \<Rightarrow> componentDidMount pf (s\<lparr>canvasAttached := True\<rparr>))"

definition unmount :: "('b, 'c, 'v) app \<Rightarrow> (error + unit) \<times> ('b, 'c, 'v) app" where
  "unmount s = (Inr (), s\<lparr>resizeListener := False, canvasAttached := False\<rparr>)"

section \<open>The event loop\<close>

text \<open>
  What can happen to the component between two drains of the microtask queue: a
  lifecycle call of React, a user action, a change of the window width, the
  \<^verbatim>\<open>resize\<close> event (delivered only while the listener is registered), or the browser
  completing the \<open>n\<close>-th pending read or decode.
\<close>

datatype task =
    Mount
  | Unmount
  | PreviousFileButtonClick
  | NextFileButtonClick
  | DownloadButtonClick
  | VolumeSliderChange jsnum
  | InnerWidthChange nat
  | WindowResize
  | IOCompletes nat

fun dispatch ::
    "('b, 'c, 'v) platform \<Rightarrow> task \<Rightarrow> ('b, 'c, 'v) app \<Rightarrow> (error + unit) \<times> ('b, 'c, 'v) app" where
  "dispatch pf Mount s = mount pf s"
| "dispatch pf Unmount s = unmount s"
| "dispatch pf PreviousFileButtonClick s = previousFileButtonOnClick pf s"
| "dispatch pf NextFileButtonClick s = nextFileButtonOnClick pf s"
| "dispatch pf DownloadButtonClick s = downloadButtonOnClick s"
| "dispatch pf (VolumeSliderChange x) s = volumeSliderOnChange pf x s"
| "dispatch pf (InnerWidthChange w) s = (Inr (), s\<lparr>innerWidth := w\<rparr>)"
| "dispatch pf WindowResize s = (if resizeListener s then windowOnResize pf s else (Inr (), s))"
| "dispatch pf (IOCompletes n) s =
     (if n < length (pendingIO s)
      then (Inr (), completeIO pf (pendingIO s ! n)
                      (s\<lparr>pendingIO := take n (pendingIO s) @ drop (Suc n) (pendingIO s)\<rparr>))
      else (Inr (), s))"

text \<open>
  The states of a session. A task starts only when the microtask queue is empty; the
  jobs of the queue run one by one, first in first out. Tasks may come at any moment and
  in any order, also those a disabled button would not deliver, and the session goes on
  after a handler has raised.
\<close>

inductive step :: "('b, 'c, 'v) platform \<Rightarrow> ('b, 'c, 'v) app \<Rightarrow> ('b, 'c, 'v) app \<Rightarrow> bool"
  for pf :: "('b, 'c, 'v) platform" where
  task: "microtasks s = [] \<Longrightarrow> step pf s (snd (dispatch pf t s))"
| microtask: "microtasks s = j # js \<Longrightarrow> step pf s (runJob pf j (s\<lparr>microtasks := js\<rparr>))"

inductive reachable :: "('b, 'c, 'v) platform \<Rightarrow> ('b, 'c, 'v) app \<Rightarrow> bool"
  for pf :: "('b, 'c, 'v) platform" where
  start: "constructor True w files cfg = Inr s \<Longrightarrow> reachable pf s"
| later: "reachable pf s \<Longrightarrow> step pf s s' \<Longrightarrow> reachable pf s'"

text \<open>
  Running to quiescence: the microtask queue is drained, then the oldest pending read
  or decode completes, until nothing is left. The number bounds the steps; \<open>None\<close> means
  that it was too small.
\<close>

fun runToQuiescence ::
    "('b, 'c, 'v) platform \<Rightarrow> nat \<Rightarrow> ('b, 'c, 'v) app \<Rightarrow> ('b, 'c, 'v) app option" where
  "runToQuiescence pf 0 s = (if microtasks s = [] \<and> pendingIO s = [] then Some s else None)"
| "runToQuiescence pf (Suc m) s =
     (case microtasks s of
        j # js \<Rightarrow> runToQuiescence pf m (runJob pf j (s\<lparr>microtasks := js\<rparr>))
      | [] \<Rightarrow>
          (case pendingIO s of
             [] \<Rightarrow> Some s
           | x # xs \<Rightarrow> runToQuiescence pf m (completeIO pf x (s\<lparr>pendingIO := xs\<rparr>))))"

definition quiescent :: "('b, 'c, 'v) app \<Rightarrow> bool" where
  "quiescent s = (microtasks s = [] \<and> pendingIO s = [])"

text \<open>
  A render request run to its end: the call of \<^verbatim>\<open>useSelectedAudioFileToRender\<close> with
  the two renderers, then everything it has started. The result is the promise the call
  returned and the state at quiescence; \<open>None\<close> when the call raised or the bound was too
  small.
\<close>

definition renderRequest ::
    "('b, 'c, 'v) platform \<Rightarrow> nat \<Rightarrow> ('b, 'c, 'v) app \<Rightarrow> (nat \<times> ('b, 'c, 'v) app) option" where
  "renderRequest pf n s =
     (case useSelectedAudioFileToRender pf bothRenderers s of
        (Inl e, s1) \<Rightarrow> None
      | (Inr q, s1) \<Rightarrow> map_option (Pair q) (runToQuiescence pf n s1))"

text \<open>\<open>k\<close> render requests, each started when the one before has come to its end.\<close>

fun renderRequests ::
    "('b, 'c, 'v) platform \<Rightarrow> nat \<Rightarrow> nat \<Rightarrow> ('b, 'c, 'v) app \<Rightarrow> ('b, 'c, 'v) app option" where
  "renderRequests pf n 0 s = Some s"
| "renderRequests pf n (Suc k) s =
     (case renderRequest pf n s of
        None \<Rightarrow> None
      | Some (q, s1) \<Rightarrow> renderRequests pf n k s1)"

section \<open>Auxiliary definitions\<close>

text \<open>What no method of the component assigns: the props, the configuration and \<open>isPlaying\<close>.\<close>

definition fixed :: "('b, 'c, 'v) app \<Rightarrow> File list \<times> 'c \<times> 'c \<times> bool" where
  "fixed s = (audioFiles s, initialConfig s, config s, isPlaying s)"

text \<open>
  The invariant behind the persistence of the audio cache: a pending read or decode
  carries the file, or the bytes, of the index it was started for, and a cache entry is
  what decoding and analysing the file of its index gives.
\<close>

definition ioOk :: "File list \<Rightarrow> io \<Rightarrow> bool" where
  "ioOk files x =
     (case x of
        FileRead f i p \<Rightarrow> 0 \<le> i \<and> i < int (length files) \<and> files ! nat i = f
      | Decode bytes i p \<Rightarrow> 0 \<le> i \<and> i < int (length files) \<and> content (files ! nat i) = bytes)"

definition iosOk :: "('b, 'c, 'v) app \<Rightarrow> bool" where
  "iosOk s = list_all (ioOk (audioFiles s)) (pendingIO s)"

definition expectedAudioData ::
    "('b, 'c, 'v) platform \<Rightarrow> ('b, 'c, 'v) app \<Rightarrow> int \<Rightarrow> 'b AudioData option" where
  "expectedAudioData pf s i =
     (case fileAt s i of
        None \<Rightarrow> None
      | Some f \<Rightarrow>
          (case decodeAudioData pf (content f) of
             None \<Rightarrow> None
           | Some buf \<Rightarrow>
               Some \<lparr>audioBuffer = buf, spectrumFftData = getSpectrumFftData pf buf (config s)\<rparr>))"

definition cacheInv :: "('b, 'c, 'v) platform \<Rightarrow> ('b, 'c, 'v) app \<Rightarrow> bool" where
  "cacheInv pf s =
     (iosOk s \<and> (\<forall>i d. audioDataCache s i = Some d \<longrightarrow> expectedAudioData pf s i = Some d))"

text \<open>
  The index \<open>i\<close> is selected and has been rendered: nothing is left to run, the canvas
  is attached and both caches hold an entry for \<open>i\<close>.
\<close>

definition rendered ::
    "int \<Rightarrow> 'b AudioData \<Rightarrow> ImageData \<Rightarrow> ('b, 'c, 'v) app \<Rightarrow> bool" where
  "rendered i d img s =
     (quiescent s \<and> canvasAttached s \<and> selectedIndex s = i \<and> fileAt s i \<noteq> None
      \<and> audioDataCache s i = Some d \<and> spectrogramImageDataCache s i = Some img)"

text \<open>
  Of a render request run to its end: the final state, and the state of the promise the
  request returned.
\<close>

definition requestEnd ::
    "('b, 'c, 'v) platform \<Rightarrow> nat \<Rightarrow> ('b, 'c, 'v) app \<Rightarrow> ('b, 'c, 'v) app option" where
  "requestEnd pf n s = map_option snd (renderRequest pf n s)"

definition requestPromise ::
    "('b, 'c, 'v) platform \<Rightarrow> nat \<Rightarrow> ('b, 'c, 'v) app \<Rightarrow> ('b, 'v) pstate option" where
  "requestPromise pf n s = map_option (\<lambda>(q, s'). promises s' q) (renderRequest pf n s)"

text \<open>
  \<^verbatim>\<open>getSpectrogramImageData\<close> run to its end: the state of the promise it returned and the
  entry of the index in the image cache.
\<close>

definition imageRequest ::
    "('b, 'c, 'v) platform \<Rightarrow> nat \<Rightarrow> int \<Rightarrow> ('b, 'c, 'v) app \<Rightarrow>
     (('b, 'v) pstate \<times> ImageData option) option" where
  "imageRequest pf n i s =
     (case getSpectrogramImageData i s of
        (p, s1) \<Rightarrow>
          map_option (\<lambda>s'. (promises s' p, spectrogramImageDataCache s' i))
            (runToQuiescence pf n s1))"

subsection \<open>A small instance\<close>

text \<open>
  Two files, the second of which does not decode; a decoder that returns the number of
  bytes, an analysis with two frequency bins, a spectrogram renderer that paints the
  canvas black and a markings renderer that paints it white; a window three pixels wide.
\<close>

definition testFiles :: "File list" where
  "testFiles = [\<lparr>name = ''a.wav'', content = [82, 73]\<rparr>, \<lparr>name = ''b.wav'', content = []\<rparr>]"

definition testPlatform :: "(nat, unit, nat) platform" where
  "testPlatform =
     \<lparr>decodeAudioData = (\<lambda>bytes. if bytes = [] then None else Some (length bytes)),
      getSpectrumFftData = (\<lambda>buf cfg. \<lparr>spectrumBins = 2\<rparr>),
      renderSpectrogram = (\<lambda>rc c. c\<lparr>bitmap := map (\<lambda>_. (0, 0, 0, 255)) (bitmap c)\<rparr>),
      renderMarkings = (\<lambda>rc marks c. c\<lparr>bitmap := map (\<lambda>_. (255, 255, 255, 255)) (bitmap c)\<rparr>),
      getAllFieldValuesForEntry = (\<lambda>cfg n. ([length n], []))\<rparr>"

definition testApp :: "(nat, unit, nat) app" where
  "testApp = initialApp 3 testFiles ()"

text \<open>
  The instance mounted (the first file is being read), after the \<^verbatim>\<open>load\<close> event, after
  the decoding (the AudioData of index 0 is stored and the callback of the render request
  is queued), and after that callback has run.
\<close>

definition testMounted :: "(nat, unit, nat) app" where
  "testMounted = snd (dispatch testPlatform Mount testApp)"

definition testLoaded :: "(nat, unit, nat) app" where
  "testLoaded = snd (dispatch testPlatform (IOCompletes 0) testMounted)"

definition testDecoded :: "(nat, unit, nat) app" where
  "testDecoded = snd (dispatch testPlatform (IOCompletes 0) testLoaded)"

definition testAudio :: "nat AudioData" where
  "testAudio = \<lparr>audioBuffer = 2, spectrumFftData = \<lparr>spectrumBins = 2\<rparr>\<rparr>"

definition testMarked :: "(nat, unit, nat) app" where
  "testMarked = runJob testPlatform (ReactionJob (UseThen bothRenderers [5]) 1 (VAudio testAudio))
     (testDecoded\<lparr>microtasks := []\<rparr>)"

text \<open>The mounted instance after one click on Next.\<close>

definition testNext :: "(nat, unit, nat) app" where
  "testNext = snd (dispatch testPlatform NextFileButtonClick testMounted)"

text \<open>
  The instance at the moment \<^verbatim>\<open>componentDidMount\<close> issues the first render request (the
  canvas is attached, nothing has run yet), and the image its spectrogram renderer gives.
\<close>

definition testAttached :: "(nat, unit, nat) app" where
  "testAttached = testApp\<lparr>canvasAttached := True\<rparr>"

definition blackImage :: ImageData where
  "blackImage = \<lparr>width = 3, height = 2, data = replicate 6 (0, 0, 0, 255)\<rparr>"

text \<open>
  Two more instances at the moment of their first render request: one whose only file does
  not decode, and the instance in a window of width zero. \<open>testRendered\<close> is the instance
  when its first render request has come to its end.
\<close>

definition testBroken :: "(nat, unit, nat) app" where
  "testBroken = (initialApp 3 [\<lparr>name = ''b.wav'', content = []\<rparr>] ())\<lparr>canvasAttached := True\<rparr>"

definition testCollapsed :: "(nat, unit, nat) app" where
  "testCollapsed = (initialApp 0 testFiles ())\<lparr>canvasAttached := True\<rparr>"

definition testRendered :: "(nat, unit, nat) app" where
  "testRendered = the (requestEnd testPlatform 5 testAttached)"

text \<open>
  The instance in a window 800 pixels wide, and an AudioData with 256 frequency bins.
\<close>

definition testWide :: "(nat, unit, nat) app" where
  "testWide = testAttached\<lparr>innerWidth := 800\<rparr>"

definition testFine :: "nat AudioData" where
  "testFine = \<lparr>audioBuffer = 2, spectrumFftData = \<lparr>spectrumBins = 256\<rparr>\<rparr>"

section \<open>What the methods leave unchanged\<close>

lemma fixed_update [simp]:
  "fixed (s\<lparr>promises := a1\<rparr>) = fixed s"
  "fixed (s\<lparr>nextPromise := a2\<rparr>) = fixed s"
  "fixed (s\<lparr>microtasks := a3\<rparr>) = fixed s"
  "fixed (s\<lparr>pendingIO := a4\<rparr>) = fixed s"
  "fixed (s\<lparr>trace := a5\<rparr>) = fixed s"
  "fixed (s\<lparr>spectrogramCanvas := a6\<rparr>) = fixed s"
  "fixed (s\<lparr>internalCanvas := a7\<rparr>) = fixed s"
  "fixed (s\<lparr>spectrogramImageDataCache := a8\<rparr>) = fixed s"
  "fixed (s\<lparr>audioDataCache := a9\<rparr>) = fixed s"
  "fixed (s\<lparr>canvasAttached := b1\<rparr>) = fixed s"
  "fixed (s\<lparr>resizeListener := b2\<rparr>) = fixed s"
  "fixed (s\<lparr>innerWidth := b3\<rparr>) = fixed s"
  "fixed (s\<lparr>volume := b4\<rparr>) = fixed s"
  "fixed (s\<lparr>selectedIndex := b5\<rparr>) = fixed s"
  by (simp_all add: fixed_def)

lemma fixedD:
  "fixed t = fixed s \<Longrightarrow>
   audioFiles t = audioFiles s \<and> initialConfig t = initialConfig s \<and> config t = config s"
  by (simp add: fixed_def)

lemma newPromise_frame [simp]:
  "fixed (snd (newPromise s)) = fixed s"
  "volume (snd (newPromise s)) = volume s"
  "selectedIndex (snd (newPromise s)) = selectedIndex s"
  "audioDataCache (snd (newPromise s)) = audioDataCache s"
  "pendingIO (snd (newPromise s)) = pendingIO s"
  by (simp_all add: newPromise_def)

lemma fulfil_frame [simp]:
  "fixed (fulfil p v s) = fixed s"
  "volume (fulfil p v s) = volume s"
  "selectedIndex (fulfil p v s) = selectedIndex s"
  "audioDataCache (fulfil p v s) = audioDataCache s"
  "pendingIO (fulfil p v s) = pendingIO s"
  by (simp_all add: fulfil_def split: pstate.splits)

lemma reject_frame [simp]:
  "fixed (reject p e s) = fixed s"
  "volume (reject p e s) = volume s"
  "selectedIndex (reject p e s) = selectedIndex s"
  "audioDataCache (reject p e s) = audioDataCache s"
  "pendingIO (reject p e s) = pendingIO s"
  by (simp_all add: reject_def split: pstate.splits)

lemma promiseResolve_frame [simp]:
  "fixed (snd (promiseResolve v s)) = fixed s"
  "volume (snd (promiseResolve v s)) = volume s"
  "selectedIndex (snd (promiseResolve v s)) = selectedIndex s"
  "audioDataCache (snd (promiseResolve v s)) = audioDataCache s"
  "pendingIO (snd (promiseResolve v s)) = pendingIO s"
  by (simp_all add: promiseResolve_def split_beta)

lemma thenP_frame [simp]:
  "fixed (snd (thenP p k s)) = fixed s"
  "volume (snd (thenP p k s)) = volume s"
  "selectedIndex (snd (thenP p k s)) = selectedIndex s"
  "audioDataCache (snd (thenP p k s)) = audioDataCache s"
  "pendingIO (snd (thenP p k s)) = pendingIO s"
  by (simp_all add: thenP_def enqueue_def split_beta split: pstate.splits)

lemma getAudioData_frame [simp]:
  "fixed (snd (getAudioData i s)) = fixed s"
  "volume (snd (getAudioData i s)) = volume s"
  "selectedIndex (snd (getAudioData i s)) = selectedIndex s"
  "audioDataCache (snd (getAudioData i s)) = audioDataCache s"
  by (simp_all add: getAudioData_def split_beta split: option.splits)

lemma getSpectrogramImageData_frame [simp]:
  "fixed (snd (getSpectrogramImageData i s)) = fixed s"
  "volume (snd (getSpectrogramImageData i s)) = volume s"
  "selectedIndex (snd (getSpectrogramImageData i s)) = selectedIndex s"
  "audioDataCache (snd (getSpectrogramImageData i s)) = audioDataCache s"
  by (simp_all add: getSpectrogramImageData_def split_beta split: option.splits)

lemma renderSpectrogramUsingCache_frame [simp]:
  "fixed (renderSpectrogramUsingCache rc s) = fixed s"
  "volume (renderSpectrogramUsingCache rc s) = volume s"
  "selectedIndex (renderSpectrogramUsingCache rc s) = selectedIndex s"
  "audioDataCache (renderSpectrogramUsingCache rc s) = audioDataCache s"
  by (simp_all add: renderSpectrogramUsingCache_def split_beta)

lemma drawOn_frame [simp]:
  "fixed (drawOn t f s) = fixed s"
  "volume (drawOn t f s) = volume s"
  "selectedIndex (drawOn t f s) = selectedIndex s"
  "audioDataCache (drawOn t f s) = audioDataCache s"
  "pendingIO (drawOn t f s) = pendingIO s"
  by (simp_all add: drawOn_def split: surface.splits)

lemma callRenderer_frame [simp]:
  "fixed (callRenderer pf r rc cvs s) = fixed s"
  "volume (callRenderer pf r rc cvs s) = volume s"
  "selectedIndex (callRenderer pf r rc cvs s) = selectedIndex s"
  "audioDataCache (callRenderer pf r rc cvs s) = audioDataCache s"
  by (cases r; simp)+

lemma forEach_frame [simp]:
  "fixed (fold (\<lambda>r. callRenderer pf r rc cvs) rs s) = fixed s"
  "volume (fold (\<lambda>r. callRenderer pf r rc cvs) rs s) = volume s"
  "selectedIndex (fold (\<lambda>r. callRenderer pf r rc cvs) rs s) = selectedIndex s"
  "audioDataCache (fold (\<lambda>r. callRenderer pf r rc cvs) rs s) = audioDataCache s"
  by (induction rs arbitrary: s; simp)+

lemma callback_frame [simp]:
  "fixed (snd (callback pf k v s)) = fixed s"
  "volume (snd (callback pf k v s)) = volume s"
  "selectedIndex (snd (callback pf k v s)) = selectedIndex s"
  "audioDataCache (snd (callback pf k v s)) = audioDataCache s"
  by (cases "(pf, k, v, s)" rule: callback.cases; simp add: Let_def split: sum.splits)+

lemma runJob_frame [simp]:
  "fixed (runJob pf j s) = fixed s"
  "volume (runJob pf j s) = volume s"
  "selectedIndex (runJob pf j s) = selectedIndex s"
  "audioDataCache (runJob pf j s) = audioDataCache s"
  by (cases j; simp split: prod.splits sum.splits;
      metis callback_frame snd_conv)+


lemma completeIO_frame [simp]:
  "fixed (completeIO pf x s) = fixed s"
  "volume (completeIO pf x s) = volume s"
  "selectedIndex (completeIO pf x s) = selectedIndex s"
  by (cases x; simp add: Let_def split: option.splits)+

lemma useSelectedAudioFileToRender_frame [simp]:
  "fixed (snd (useSelectedAudioFileToRender pf rs s)) = fixed s"
  "volume (snd (useSelectedAudioFileToRender pf rs s)) = volume s"
  "selectedIndex (snd (useSelectedAudioFileToRender pf rs s)) = selectedIndex s"
  "audioDataCache (snd (useSelectedAudioFileToRender pf rs s)) = audioDataCache s"
  by (simp_all add: useSelectedAudioFileToRender_def split_beta Let_def split: option.splits)

lemma resizeAndRerenderCanvas_frame [simp]:
  "fixed (snd (resizeAndRerenderCanvas pf s)) = fixed s"
  "volume (snd (resizeAndRerenderCanvas pf s)) = volume s"
  "selectedIndex (snd (resizeAndRerenderCanvas pf s)) = selectedIndex s"
  "audioDataCache (snd (resizeAndRerenderCanvas pf s)) = audioDataCache s"
  by (simp_all add: resizeAndRerenderCanvas_def split_beta split: sum.splits)

lemma windowOnResize_frame [simp]:
  "fixed (snd (windowOnResize pf s)) = fixed s"
  "volume (snd (windowOnResize pf s)) = volume s"
  "selectedIndex (snd (windowOnResize pf s)) = selectedIndex s"
  "audioDataCache (snd (windowOnResize pf s)) = audioDataCache s"
  by (simp_all add: windowOnResize_def)

lemma renderAfterSelection_frame [simp]:
  "fixed (snd (renderAfterSelection pf s)) = fixed s"
  "volume (snd (renderAfterSelection pf s)) = volume s"
  "selectedIndex (snd (renderAfterSelection pf s)) = selectedIndex s"
  "audioDataCache (snd (renderAfterSelection pf s)) = audioDataCache s"
  by (simp_all add: renderAfterSelection_def split_beta split: sum.splits)

lemma mount_frame [simp]:
  "fixed (snd (mount pf s)) = fixed s"
  "volume (snd (mount pf s)) = volume s"
  "selectedIndex (snd (mount pf s)) = selectedIndex s"
  "audioDataCache (snd (mount pf s)) = audioDataCache s"
  by (simp_all add: mount_def componentDidMount_def split_beta split: sum.splits)

text \<open>What \<^verbatim>\<open>setState\<close> leaves of an update, when neither the rendering nor the callback touches it.\<close>

lemma setState_selectedIndex:
  "selectedIndex (snd (setState pf (\<lambda>t. t\<lparr>selectedIndex := i\<rparr>) (renderAfterSelection pf) s))
     = (if canvasAttached s then i else selectedIndex s)"
  by (simp add: setState_def componentDidUpdate_def Let_def split_beta split: sum.splits)

lemma setState_volume:
  "volume (snd (setState pf (\<lambda>t. t\<lparr>volume := x\<rparr>) (\<lambda>t. (Inr (), t)) s))
     = (if canvasAttached s then x else volume s)"
  by (simp add: setState_def componentDidUpdate_def Let_def split_beta split: sum.splits)

lemma previousFileButtonOnClick_selectedIndex:
  "selectedIndex (snd (previousFileButtonOnClick pf s))
     = (if canvasAttached s then max 0 (selectedIndex s - 1) else selectedIndex s)"
  by (simp add: previousFileButtonOnClick_def Let_def setState_selectedIndex)

lemma nextFileButtonOnClick_selectedIndex:
  "selectedIndex (snd (nextFileButtonOnClick pf s)) =
     (if canvasAttached s then min (int (length (audioFiles s)) - 1) (selectedIndex s + 1)
      else selectedIndex s)"
  by (simp add: nextFileButtonOnClick_def Let_def setState_selectedIndex)

lemma volumeSliderOnChange_volume:
  "volume (snd (volumeSliderOnChange pf x s)) =
     (case x of
        Finite r \<Rightarrow> (if canvasAttached s then max 0 (min r 1) else volume s)
      | _ \<Rightarrow> volume s)"
  by (simp add: volumeSliderOnChange_def Let_def setState_volume split: jsnum.splits)

lemma setState_fixed:
  assumes "\<And>t. fixed (update t) = fixed t" "\<And>t. fixed (snd (afterwards t)) = fixed t"
  shows "fixed (snd (setState pf update afterwards s)) = fixed s"
  using assms
  by (simp add: setState_def componentDidUpdate_def Let_def split_beta split: sum.splits)

lemma handlers_fixed [simp]:
  "fixed (snd (previousFileButtonOnClick pf s)) = fixed s"
  "fixed (snd (nextFileButtonOnClick pf s)) = fixed s"
  "fixed (snd (volumeSliderOnChange pf x s)) = fixed s"
  by (simp_all add: previousFileButtonOnClick_def nextFileButtonOnClick_def
      volumeSliderOnChange_def Let_def setState_fixed split: jsnum.splits)

lemma dispatch_fixed [simp]: "fixed (snd (dispatch pf t s)) = fixed s"
  by (cases t; simp add: unmount_def downloadButtonOnClick_def)

lemma setState_keeps_volume:
  "volume (snd (setState pf (\<lambda>t. t\<lparr>selectedIndex := i\<rparr>) (renderAfterSelection pf) s)) = volume s"
  by (simp add: setState_def componentDidUpdate_def Let_def split_beta split: sum.splits)

lemma setState_keeps_selectedIndex:
  "selectedIndex (snd (setState pf (\<lambda>t. t\<lparr>volume := x\<rparr>) (\<lambda>t. (Inr (), t)) s)) = selectedIndex s"
  by (simp add: setState_def componentDidUpdate_def Let_def split_beta split: sum.splits)

lemma dispatch_selectedIndex:
  "selectedIndex (snd (dispatch pf t s)) =
     (case t of
        PreviousFileButtonClick \<Rightarrow>
          (if canvasAttached s then max 0 (selectedIndex s - 1) else selectedIndex s)
      | NextFileButtonClick \<Rightarrow>
          (if canvasAttached s then min (int (length (audioFiles s)) - 1) (selectedIndex s + 1)
           else selectedIndex s)
      | _ \<Rightarrow> selectedIndex s)"
  by (cases t; simp add: unmount_def downloadButtonOnClick_def
        previousFileButtonOnClick_selectedIndex nextFileButtonOnClick_selectedIndex)
     (simp add: volumeSliderOnChange_def Let_def setState_keeps_selectedIndex split: jsnum.splits)

lemma dispatch_volume:
  "volume (snd (dispatch pf t s)) =
     (case t of
        VolumeSliderChange (Finite r) \<Rightarrow>
          (if canvasAttached s then max 0 (min r 1) else volume s)
      | _ \<Rightarrow> volume s)"
  by (cases t; simp add: unmount_def downloadButtonOnClick_def volumeSliderOnChange_volume
        previousFileButtonOnClick_def nextFileButtonOnClick_def Let_def setState_keeps_volume
        split: jsnum.splits)


lemma audioFiles_dispatch [simp]: "audioFiles (snd (dispatch pf t s)) = audioFiles s"
  using fixedD [OF dispatch_fixed] by blast

lemma audioFiles_runJob [simp]: "audioFiles (runJob pf j s) = audioFiles s"
  using fixedD [OF runJob_frame(1)] by blast

lemma step_selectedIndex:
  assumes "step pf s s'" and "audioFiles s \<noteq> []"
    and "0 \<le> selectedIndex s \<and> selectedIndex s \<le> int (length (audioFiles s)) - 1"
  shows "0 \<le> selectedIndex s' \<and> selectedIndex s' \<le> int (length (audioFiles s')) - 1"
  using assms
proof (induction rule: step.induct)
  case (task s t)
  then show ?case
    by (cases t) (auto simp add: dispatch_selectedIndex simp del: dispatch.simps)
next
  case (microtask s j js)
  then show ?case by simp
qed

lemma step_audioFiles: "step pf s s' \<Longrightarrow> audioFiles s' = audioFiles s"
  by (induction rule: step.induct) simp_all

lemma reachable_selectedIndex:
  "reachable pf s \<Longrightarrow> audioFiles s \<noteq> [] \<Longrightarrow>
   0 \<le> selectedIndex s \<and> selectedIndex s \<le> int (length (audioFiles s)) - 1"
proof (induction rule: reachable.induct)
  case (start w files cfg s)
  then show ?case
    by (cases files) (auto simp: constructor_def initialApp_def)
next
  case (later s s')
  then show ?case
    using step_selectedIndex [of pf s s'] step_audioFiles [of pf s s'] by simp
qed

lemma step_volume:
  "step pf s s' \<Longrightarrow> 0 \<le> volume s \<and> volume s \<le> 1 \<Longrightarrow> 0 \<le> volume s' \<and> volume s' \<le> 1"
proof (induction rule: step.induct)
  case (task s t)
  then show ?case
    by (cases t) (simp_all add: dispatch_volume del: dispatch.simps split: jsnum.splits)
next
  case (microtask s j js)
  then show ?case by simp
qed

lemma reachable_volume: "reachable pf s \<Longrightarrow> 0 \<le> volume s \<and> volume s \<le> 1"
proof (induction rule: reachable.induct)
  case (start w files cfg s)
  then show ?case by (auto simp: constructor_def initialApp_def)
next
  case (later s s')
  then show ?case using step_volume by blast
qed

section \<open>The audio cache keeps its entries\<close>

lemma iosOk_cong: "fixed t = fixed s \<Longrightarrow> pendingIO t = pendingIO s \<Longrightarrow> iosOk t = iosOk s"
  by (simp add: iosOk_def fixed_def)

lemma fileAt_cong: "fixed t = fixed s \<Longrightarrow> fileAt t = fileAt s"
  by (simp add: fixed_def fileAt_def fun_eq_iff)

lemma fileAt_newPromise [simp]: "fileAt (snd (newPromise s)) = fileAt s"
  by (rule fileAt_cong) simp

lemma expectedAudioData_cong: "fixed t = fixed s \<Longrightarrow> expectedAudioData pf t = expectedAudioData pf s"
proof -
  assume a: "fixed t = fixed s"
  then have c: "config t = config s" by (simp add: fixed_def)
  show ?thesis
    unfolding expectedAudioData_def fun_eq_iff c fileAt_cong [OF a] by simp
qed

lemma cacheInv_cong:
  "fixed t = fixed s \<Longrightarrow> pendingIO t = pendingIO s \<Longrightarrow> audioDataCache t = audioDataCache s \<Longrightarrow>
   cacheInv pf t = cacheInv pf s"
  using iosOk_cong [of t s] expectedAudioData_cong [of t s pf] by (simp add: cacheInv_def)

lemma cacheInv_more_io:
  "fixed t = fixed s \<Longrightarrow> audioDataCache t = audioDataCache s \<Longrightarrow> iosOk t \<Longrightarrow>
   cacheInv pf s \<Longrightarrow> cacheInv pf t"
  using expectedAudioData_cong [of t s pf] by (simp add: cacheInv_def)

lemma getAudioData_iosOk: "iosOk s \<Longrightarrow> iosOk (snd (getAudioData i s))"
proof (cases "audioDataCache s i")
  case None
  assume ok: "iosOk s"
  show ?thesis
  proof (cases "fileAt s i")
    case N: None
    then have "pendingIO (snd (getAudioData i s)) = pendingIO s"
      using None by (simp add: getAudioData_def split_beta)
    then show ?thesis using ok iosOk_cong [of "snd (getAudioData i s)" s] by simp
  next
    case (Some f)
    then have "pendingIO (snd (getAudioData i s)) = pendingIO s @ [FileRead f i (nextPromise s)]"
      using None by (simp add: getAudioData_def split_beta) (simp add: newPromise_def)
    moreover have "ioOk (audioFiles s) (FileRead f i (nextPromise s))"
      using Some by (auto simp add: ioOk_def fileAt_def split: if_splits)
    ultimately show ?thesis
      using ok fixedD [OF getAudioData_frame(1), of i s] by (simp add: iosOk_def)
  qed
next
  case (Some d)
  assume ok: "iosOk s"
  have "pendingIO (snd (getAudioData i s)) = pendingIO s"
    using Some by (simp add: getAudioData_def)
  then show ?thesis using ok iosOk_cong [of "snd (getAudioData i s)" s] by simp
qed

lemma thenP_iosOk [simp]: "iosOk (snd (thenP p k s)) = iosOk s"
  by (rule iosOk_cong) simp_all

lemma fulfil_iosOk [simp]: "iosOk (fulfil p v s) = iosOk s"
  by (rule iosOk_cong) simp_all

lemma reject_iosOk [simp]: "iosOk (reject p e s) = iosOk s"
  by (rule iosOk_cong) simp_all

lemma promiseResolve_iosOk [simp]: "iosOk (snd (promiseResolve v s)) = iosOk s"
  by (rule iosOk_cong) simp_all

lemma iosOk_update [simp]:
  "iosOk (s\<lparr>trace := a1\<rparr>) = iosOk s"
  "iosOk (s\<lparr>spectrogramCanvas := a2\<rparr>) = iosOk s"
  "iosOk (s\<lparr>internalCanvas := a3\<rparr>) = iosOk s"
  "iosOk (s\<lparr>spectrogramImageDataCache := a4\<rparr>) = iosOk s"
  "iosOk (s\<lparr>audioDataCache := a5\<rparr>) = iosOk s"
  "iosOk (s\<lparr>canvasAttached := a6\<rparr>) = iosOk s"
  "iosOk (s\<lparr>resizeListener := a7\<rparr>) = iosOk s"
  "iosOk (s\<lparr>innerWidth := a8\<rparr>) = iosOk s"
  "iosOk (s\<lparr>volume := a9\<rparr>) = iosOk s"
  "iosOk (s\<lparr>selectedIndex := b1\<rparr>) = iosOk s"
  "iosOk (s\<lparr>microtasks := b2\<rparr>) = iosOk s"
  by (simp_all add: iosOk_def)

lemma getSpectrogramImageData_iosOk: "iosOk s \<Longrightarrow> iosOk (snd (getSpectrogramImageData i s))"
  by (simp add: getSpectrogramImageData_def split_beta getAudioData_iosOk split: option.splits)

lemma renderSpectrogramUsingCache_iosOk: "iosOk s \<Longrightarrow> iosOk (renderSpectrogramUsingCache rc s)"
  by (simp add: renderSpectrogramUsingCache_def split_beta getSpectrogramImageData_iosOk)

lemma callRenderer_iosOk: "iosOk s \<Longrightarrow> iosOk (callRenderer pf r rc cvs s)"
  by (cases r) (simp_all add: renderSpectrogramUsingCache_iosOk drawOn_def split: surface.splits)

lemma forEach_iosOk: "iosOk s \<Longrightarrow> iosOk (fold (\<lambda>r. callRenderer pf r rc cvs) rs s)"
  by (induction rs arbitrary: s) (simp_all add: callRenderer_iosOk)

lemma callback_iosOk: "iosOk s \<Longrightarrow> iosOk (snd (callback pf k v s))"
  by (cases "(pf, k, v, s)" rule: callback.cases)
     (simp_all add: Let_def forEach_iosOk drawOn_def split: sum.splits)

lemma runJob_iosOk: "iosOk s \<Longrightarrow> iosOk (runJob pf j s)"
proof (cases j)
  case (ReactionJob k q v)
  assume ok: "iosOk s"
  obtain r s1 where c: "callback pf k v s = (r, s1)" by (cases "callback pf k v s")
  then have "iosOk s1" using callback_iosOk [OF ok, of pf k v] by simp
  then show ?thesis using ReactionJob c by (cases r) simp_all
next
  case (RejectionJob q e)
  assume "iosOk s"
  then show ?thesis using RejectionJob by simp
qed


lemma useSelectedAudioFileToRender_iosOk:
  "iosOk s \<Longrightarrow> iosOk (snd (useSelectedAudioFileToRender pf rs s))"
  by (simp add: useSelectedAudioFileToRender_def split_beta Let_def getAudioData_iosOk
      split: option.splits)

lemma resizeAndRerenderCanvas_iosOk: "iosOk s \<Longrightarrow> iosOk (snd (resizeAndRerenderCanvas pf s))"
  by (simp add: resizeAndRerenderCanvas_def split_beta useSelectedAudioFileToRender_iosOk
      split: sum.splits)

lemma renderAfterSelection_iosOk: "iosOk s \<Longrightarrow> iosOk (snd (renderAfterSelection pf s))"
  by (simp add: renderAfterSelection_def split_beta useSelectedAudioFileToRender_iosOk
      split: sum.splits)

lemma setState_iosOk:
  assumes "iosOk s" "\<And>t. iosOk t \<Longrightarrow> iosOk (update t)" "\<And>t. iosOk t \<Longrightarrow> iosOk (snd (afterwards t))"
  shows "iosOk (snd (setState pf update afterwards s))"
  using assms
  by (simp add: setState_def componentDidUpdate_def Let_def split_beta resizeAndRerenderCanvas_iosOk
      split: sum.splits)

lemma setState_audioDataCache:
  assumes "\<And>t. audioDataCache (update t) = audioDataCache t"
    "\<And>t. audioDataCache (snd (afterwards t)) = audioDataCache t"
  shows "audioDataCache (snd (setState pf update afterwards s)) = audioDataCache s"
  using assms
  by (simp add: setState_def componentDidUpdate_def Let_def split_beta split: sum.splits)

lemma handlers_audioDataCache [simp]:
  "audioDataCache (snd (previousFileButtonOnClick pf s)) = audioDataCache s"
  "audioDataCache (snd (nextFileButtonOnClick pf s)) = audioDataCache s"
  "audioDataCache (snd (volumeSliderOnChange pf x s)) = audioDataCache s"
  by (simp_all add: previousFileButtonOnClick_def nextFileButtonOnClick_def
      volumeSliderOnChange_def Let_def setState_audioDataCache split: jsnum.splits)

lemma handlers_iosOk:
  "iosOk s \<Longrightarrow> iosOk (snd (previousFileButtonOnClick pf s))"
  "iosOk s \<Longrightarrow> iosOk (snd (nextFileButtonOnClick pf s))"
  "iosOk s \<Longrightarrow> iosOk (snd (volumeSliderOnChange pf x s))"
  "iosOk s \<Longrightarrow> iosOk (snd (mount pf s))"
  "iosOk s \<Longrightarrow> iosOk (snd (windowOnResize pf s))"
  by (simp_all add: previousFileButtonOnClick_def nextFileButtonOnClick_def
      volumeSliderOnChange_def Let_def setState_iosOk renderAfterSelection_iosOk
      mount_def componentDidMount_def windowOnResize_def resizeAndRerenderCanvas_iosOk split_beta
      split: jsnum.splits sum.splits)


lemma completeIO_cacheInv:
  assumes inv: "cacheInv pf s" and ok: "ioOk (audioFiles s) x"
  shows "cacheInv pf (completeIO pf x s)"
proof -
  have fx: "fixed (completeIO pf x s) = fixed s" by simp
  have ex: "expectedAudioData pf (completeIO pf x s) = expectedAudioData pf s"
    by (rule expectedAudioData_cong [OF fx])
  have ios: "iosOk s" using inv by (simp add: cacheInv_def)
  show ?thesis
  proof (cases x)
    case (FileRead f i p)
    have "ioOk (audioFiles s) (Decode (content f) i p)"
      using ok FileRead by (auto simp add: ioOk_def)
    then have "iosOk (completeIO pf x s)"
      using ios FileRead by (simp add: iosOk_def)
    moreover have "audioDataCache (completeIO pf x s) = audioDataCache s"
      using FileRead by simp
    ultimately show ?thesis
      using inv ex by (simp add: cacheInv_def)
  next
    case (Decode bytes i p)
    show ?thesis
    proof (cases "decodeAudioData pf bytes")
      case None
      then show ?thesis using inv Decode by simp
    next
      case (Some buf)
      let ?d = "\<lparr>audioBuffer = buf, spectrumFftData = getSpectrumFftData pf buf (config s)\<rparr>"
      have e: "expectedAudioData pf s i = Some ?d"
        using ok Decode Some by (auto simp add: ioOk_def expectedAudioData_def fileAt_def)
      have c: "audioDataCache (completeIO pf x s) = (audioDataCache s)(i \<mapsto> ?d)"
        using Decode Some by (simp add: Let_def)
      have "pendingIO (completeIO pf x s) = pendingIO s"
        using Decode Some by (simp add: Let_def)
      then have "iosOk (completeIO pf x s)"
        using ios iosOk_cong [OF fx] by simp
      then show ?thesis
        using inv e ex c by (simp add: cacheInv_def)
    qed
  qed
qed

lemma completeIO_keeps_entry:
  assumes inv: "cacheInv pf s" and ok: "ioOk (audioFiles s) x"
    and entry: "audioDataCache s j = Some d"
  shows "audioDataCache (completeIO pf x s) j = Some d"
proof (cases x)
  case (FileRead f i p)
  then show ?thesis using entry by simp
next
  case (Decode bytes i p)
  show ?thesis
  proof (cases "decodeAudioData pf bytes")
    case None
    then show ?thesis using entry Decode by simp
  next
    case (Some buf)
    have e: "expectedAudioData pf s i =
            Some \<lparr>audioBuffer = buf, spectrumFftData = getSpectrumFftData pf buf (config s)\<rparr>"
      using ok Decode Some by (auto simp add: ioOk_def expectedAudioData_def fileAt_def)
    show ?thesis
    proof (cases "j = i")
      case True
      then have "expectedAudioData pf s i = Some d"
        using inv entry by (simp add: cacheInv_def)
      then show ?thesis using e True Decode Some by (simp add: Let_def)
    next
      case False
      then show ?thesis using entry Decode Some by (simp add: Let_def)
    qed
  qed
qed

lemma iosOk_remove:
  assumes "iosOk s" and "n < length (pendingIO s)"
  shows "ioOk (audioFiles s) (pendingIO s ! n)"
    and "iosOk (s\<lparr>pendingIO := take n (pendingIO s) @ drop (Suc n) (pendingIO s)\<rparr>)"
proof -
  show "ioOk (audioFiles s) (pendingIO s ! n)"
    using assms by (simp add: iosOk_def list_all_length)
  have "set (take n (pendingIO s) @ drop (Suc n) (pendingIO s)) \<subseteq> set (pendingIO s)"
    using set_take_subset set_drop_subset by fastforce
  then show "iosOk (s\<lparr>pendingIO := take n (pendingIO s) @ drop (Suc n) (pendingIO s)\<rparr>)"
    using assms(1) unfolding iosOk_def list_all_iff by auto
qed

lemma cacheInv_pendingIO:
  "cacheInv pf s \<Longrightarrow> iosOk (s\<lparr>pendingIO := xs\<rparr>) \<Longrightarrow> cacheInv pf (s\<lparr>pendingIO := xs\<rparr>)"
  by (rule cacheInv_more_io [of _ s]) simp_all

lemma dispatch_cacheInv:
  assumes inv: "cacheInv pf s"
  shows "cacheInv pf (snd (dispatch pf t s))"
    and "audioDataCache s j = Some d \<Longrightarrow> audioDataCache (snd (dispatch pf t s)) j = Some d"
proof -
  have ok: "iosOk s" using inv by (simp add: cacheInv_def)
  have same: "(\<And>n. t \<noteq> IOCompletes n) \<Longrightarrow> audioDataCache (snd (dispatch pf t s)) = audioDataCache s"
    by (cases t) (auto simp add: unmount_def downloadButtonOnClick_def)
  have io: "(\<And>n. t \<noteq> IOCompletes n) \<Longrightarrow> iosOk (snd (dispatch pf t s))"
    using ok by (cases t) (auto simp add: unmount_def downloadButtonOnClick_def handlers_iosOk)
  show "cacheInv pf (snd (dispatch pf t s))"
  proof (cases "\<exists>n. t = IOCompletes n")
    case False
    then show ?thesis
      using cacheInv_more_io [of "snd (dispatch pf t s)" s pf] same io inv by simp
  next
    case True
    then obtain n where t: "t = IOCompletes n" by blast
    show ?thesis
    proof (cases "n < length (pendingIO s)")
      case True
      let ?s1 = "s\<lparr>pendingIO := take n (pendingIO s) @ drop (Suc n) (pendingIO s)\<rparr>"
      have a: "cacheInv pf ?s1" using inv iosOk_remove(2) [OF ok True] by (rule cacheInv_pendingIO)
      have b: "ioOk (audioFiles ?s1) (pendingIO s ! n)"
        using iosOk_remove(1) [OF ok True] by simp
      have "cacheInv pf (completeIO pf (pendingIO s ! n) ?s1)"
        by (rule completeIO_cacheInv [OF a b])
      then show ?thesis using t True by simp
    next
      case False
      then show ?thesis using t inv by simp
    qed
  qed
  show "audioDataCache (snd (dispatch pf t s)) j = Some d" if entry: "audioDataCache s j = Some d"
  proof (cases "\<exists>n. t = IOCompletes n")
    case False
    then show ?thesis using same entry by simp
  next
    case True
    then obtain n where t: "t = IOCompletes n" by blast
    show ?thesis
    proof (cases "n < length (pendingIO s)")
      case True
      let ?s1 = "s\<lparr>pendingIO := take n (pendingIO s) @ drop (Suc n) (pendingIO s)\<rparr>"
      have a: "cacheInv pf ?s1" using inv iosOk_remove(2) [OF ok True] by (rule cacheInv_pendingIO)
      have b: "ioOk (audioFiles ?s1) (pendingIO s ! n)"
        using iosOk_remove(1) [OF ok True] by simp
      have c: "audioDataCache ?s1 j = Some d" using entry by simp
      have "audioDataCache (completeIO pf (pendingIO s ! n) ?s1) j = Some d"
        by (rule completeIO_keeps_entry [OF a b c])
      then show ?thesis using t True by simp
    next
      case False
      then show ?thesis using t entry by simp
    qed
  qed
qed

lemma runJob_cacheInv: "cacheInv pf s \<Longrightarrow> cacheInv pf (runJob pf j (s\<lparr>microtasks := js\<rparr>))"
proof -
  assume inv: "cacheInv pf s"
  then have "iosOk (runJob pf j (s\<lparr>microtasks := js\<rparr>))"
    by (simp add: cacheInv_def runJob_iosOk)
  then show ?thesis
    using cacheInv_more_io [of "runJob pf j (s\<lparr>microtasks := js\<rparr>)" s pf] inv by simp
qed

lemma step_cacheInv:
  assumes "step pf s s'" and "cacheInv pf s"
  shows "cacheInv pf s'"
    and "audioDataCache s j = Some d \<Longrightarrow> audioDataCache s' j = Some d"
  using assms
  by (induction rule: step.induct) (simp_all add: dispatch_cacheInv runJob_cacheInv del: dispatch.simps)

lemma reachable_cacheInv: "reachable pf s \<Longrightarrow> cacheInv pf s"
proof (induction rule: reachable.induct)
  case (start w files cfg s)
  then show ?case
    by (auto simp add: constructor_def initialApp_def cacheInv_def iosOk_def split: if_splits)
next
  case (later s s')
  then show ?case using step_cacheInv(1) by blast
qed

lemma steps_reachable: "(step pf)\<^sup>*\<^sup>* s s' \<Longrightarrow> reachable pf s \<Longrightarrow> reachable pf s'"
  by (induction rule: rtranclp_induct) (auto intro: reachable.later)

text \<open>
  C8: once the AudioData of an index is stored it stays, unchanged, for the rest of the
  session: whatever tasks and jobs follow (selection changes, resizes, volume changes,
  renders, completions of reads and decodes), the entry of that index is the same value.
  A decode of the same index that completes later stores an equal value again.
\<close>

theorem audioData_entry_persists:
  assumes "reachable pf s" and "(step pf)\<^sup>*\<^sup>* s s'" and "audioDataCache s i = Some d"
  shows "audioDataCache s' i = Some d"
  using assms(2,1,3)
proof (induction rule: rtranclp_induct)
  case base
  then show ?case by simp
next
  case (step y z)
  then have "reachable pf y" using steps_reachable by blast
  then have "cacheInv pf y" by (rule reachable_cacheInv)
  then show ?case using step step_cacheInv(2) by blast
qed


section \<open>The selected index and the volume\<close>

text \<open>
  C9: for a non-empty list of audio files the selected index is within
  \<open>[0, length - 1]\<close> in every state of a session: it is 0 in the state the constructor
  builds, no task and no job takes it out of the range, the Previous handler at index 0
  leaves it at 0 and the Next handler at the last index leaves it at the last index.
\<close>

theorem selectedIndex_stays_in_range:
  assumes "reachable pf s" and "audioFiles s \<noteq> []"
  shows "0 \<le> selectedIndex s \<and> selectedIndex s \<le> int (length (audioFiles s)) - 1
       \<and> (\<forall>w files cfg. constructor True w files cfg = Inr s \<longrightarrow> selectedIndex s = 0)
       \<and> (selectedIndex s = 0 \<longrightarrow> selectedIndex (snd (previousFileButtonOnClick pf s)) = 0)
       \<and> (selectedIndex s = int (length (audioFiles s)) - 1 \<longrightarrow>
            selectedIndex (snd (nextFileButtonOnClick pf s)) = int (length (audioFiles s)) - 1)"
proof -
  have "\<forall>w files cfg. constructor True w files cfg = Inr s \<longrightarrow> selectedIndex s = 0"
    by (auto simp: constructor_def initialApp_def)
  moreover have "selectedIndex s = 0 \<longrightarrow> selectedIndex (snd (previousFileButtonOnClick pf s)) = 0"
    by (simp add: previousFileButtonOnClick_selectedIndex)
  moreover have "selectedIndex s = int (length (audioFiles s)) - 1 \<longrightarrow>
            selectedIndex (snd (nextFileButtonOnClick pf s)) = int (length (audioFiles s)) - 1"
    by (simp add: nextFileButtonOnClick_selectedIndex)
  ultimately show ?thesis
    using reachable_selectedIndex [OF assms] by blast
qed

text \<open>
  C10: the volume handler leaves the whole state as it is when the parsed number is
  \<^verbatim>\<open>NaN\<close> or infinite, and otherwise, on the mounted component, sets the volume to the
  number clamped into \<open>[0, 1]\<close>; on a component that is not mounted the handler changes
  nothing. The volume is within \<open>[0, 1]\<close> in every state of a session.
\<close>

theorem volume_clamped:
  assumes "reachable pf s"
  shows "0 \<le> volume s \<and> volume s \<le> 1
       \<and> snd (volumeSliderOnChange pf NaN s) = s
       \<and> snd (volumeSliderOnChange pf PosInfinity s) = s
       \<and> snd (volumeSliderOnChange pf NegInfinity s) = s
       \<and> (canvasAttached s \<longrightarrow>
            (\<forall>x. volume (snd (volumeSliderOnChange pf (Finite x) s)) = max 0 (min x 1)))
       \<and> (\<not> canvasAttached s \<longrightarrow> (\<forall>x. snd (volumeSliderOnChange pf x s) = s))"
proof -
  have "\<not> canvasAttached s \<longrightarrow> (\<forall>x. snd (volumeSliderOnChange pf x s) = s)"
    by (simp add: volumeSliderOnChange_def setState_def Let_def split: jsnum.splits)
  then show ?thesis
    using reachable_volume [OF assms]
    by (simp add: volumeSliderOnChange_volume) (simp add: volumeSliderOnChange_def)
qed

subsection \<open>The instance\<close>

lemma reachable_testApp: "reachable pf testApp"
  by (rule reachable.start [of 3 testFiles "()"]) (simp add: constructor_def testApp_def)

lemmas exec_defs = useSelectedAudioFileToRender_def getAudioData_def getSpectrogramImageData_def
  renderSpectrogramUsingCache_def promiseResolve_def newPromise_def thenP_def fulfil_def reject_def
  enqueue_def drawOn_def bothRenderers_def renderRequest_def quiescent_def

lemmas test_defs = testApp_def initialApp_def testPlatform_def testFiles_def fileAt_def
  mount_def componentDidMount_def resizeAndRerenderCanvas_def render_def

lemma testMounted_eval:
  "microtasks testMounted = []"
  "pendingIO testMounted = [FileRead \<lparr>name = ''a.wav'', content = [82, 73]\<rparr> 0 0]"
  by (simp_all add: testMounted_def exec_defs test_defs Let_def split_beta)

lemma testMounted_state:
  "canvasAttached testMounted" "audioFiles testMounted = testFiles"
  "selectedIndex testMounted = 0" "volume testMounted = 1"
  by (simp_all add: testMounted_def exec_defs test_defs Let_def split_beta)

lemma reachable_testMounted: "reachable testPlatform testMounted"
  unfolding testMounted_def
  by (rule reachable.later [OF reachable_testApp], rule step.task)
     (simp add: testApp_def initialApp_def)

lemma reachable_testNext: "reachable testPlatform testNext"
  unfolding testNext_def
  by (rule reachable.later [OF reachable_testMounted], rule step.task)
     (rule testMounted_eval)

lemma audioFiles_testNext: "audioFiles testNext = testFiles"
  by (simp add: testNext_def testMounted_state del: dispatch.simps)

lemma selectedIndex_testNext: "selectedIndex testNext = 1"
  by (simp add: testNext_def dispatch_selectedIndex testMounted_state testFiles_def
      del: dispatch.simps)

theorem selectedIndex_stays_in_range_witness:
  "reachable testPlatform testNext \<and> audioFiles testNext \<noteq> []
   \<and> 0 \<le> selectedIndex testNext \<and> selectedIndex testNext \<le> int (length (audioFiles testNext)) - 1
   \<and> selectedIndex testNext = int (length (audioFiles testNext)) - 1
   \<and> selectedIndex (snd (nextFileButtonOnClick testPlatform testNext)) = 1"
proof -
  have ne: "audioFiles testNext \<noteq> []"
    by (simp add: audioFiles_testNext testFiles_def)
  have last: "selectedIndex testNext = int (length (audioFiles testNext)) - 1"
    by (simp add: audioFiles_testNext selectedIndex_testNext testFiles_def)
  show ?thesis
    using selectedIndex_stays_in_range [OF reachable_testNext ne] reachable_testNext ne last
    by (simp add: audioFiles_testNext testFiles_def)
qed

theorem volume_clamped_witness:
  "reachable testPlatform testMounted \<and> canvasAttached testMounted
   \<and> 0 \<le> volume testMounted \<and> volume testMounted \<le> 1
   \<and> snd (volumeSliderOnChange testPlatform NaN testMounted) = testMounted
   \<and> volume (snd (volumeSliderOnChange testPlatform (Finite 7) testMounted)) = 1
   \<and> volume (snd (volumeSliderOnChange testPlatform (Finite (1/2)) testMounted)) = 1/2
   \<and> volume (snd (volumeSliderOnChange testPlatform (Finite (-3)) testMounted)) = 0"
  using volume_clamped [OF reachable_testMounted] reachable_testMounted testMounted_state(1)
  by simp

lemma testLoaded_eval:
  "microtasks testLoaded = []"
  "pendingIO testLoaded = [Decode [82, 73] 0 0]"
  by (simp_all add: testLoaded_def testMounted_eval)

lemma testDecoded_eval:
  "audioDataCache testDecoded 0 = Some testAudio"
  by (simp add: testDecoded_def testLoaded_eval testAudio_def)
     (simp add: testPlatform_def Let_def testLoaded_def testMounted_eval)

lemma reachable_testDecoded: "reachable testPlatform testDecoded"
proof -
  have "reachable testPlatform testMounted"
    unfolding testMounted_def
    by (rule reachable.later [OF reachable_testApp], rule step.task)
       (simp add: testApp_def initialApp_def)
  then have "reachable testPlatform testLoaded"
    unfolding testLoaded_def
    by (rule reachable.later, intro step.task) (rule testMounted_eval)
  then show ?thesis
    unfolding testDecoded_def
    by (rule reachable.later, intro step.task) (rule testLoaded_eval)
qed

lemma testDecoded_microtasks:
  "microtasks testDecoded = [ReactionJob (UseThen bothRenderers [5]) 1 (VAudio testAudio)]"
  by (simp add: testDecoded_def testLoaded_eval testAudio_def)
     (simp add: testPlatform_def Let_def testLoaded_def testMounted_eval fulfil_def
        testMounted_def exec_defs test_defs split_beta)

theorem audioData_entry_persists_witness:
  "reachable testPlatform testDecoded \<and> (step testPlatform)\<^sup>*\<^sup>* testDecoded testMarked
   \<and> audioDataCache testDecoded 0 = Some testAudio
   \<and> audioDataCache testMarked 0 = Some testAudio"
proof -
  have "step testPlatform testDecoded testMarked"
    unfolding testMarked_def by (rule step.microtask) (rule testDecoded_microtasks)
  then have s: "(step testPlatform)\<^sup>*\<^sup>* testDecoded testMarked" by blast
  show ?thesis
    using audioData_entry_persists [OF reachable_testDecoded s testDecoded_eval]
      reachable_testDecoded s testDecoded_eval by blast
qed

section \<open>Render requests, run to their end\<close>

lemma fileAt_update [simp]:
  "fileAt (s\<lparr>promises := a1\<rparr>) = fileAt s"
  "fileAt (s\<lparr>nextPromise := a2\<rparr>) = fileAt s"
  "fileAt (s\<lparr>microtasks := a3\<rparr>) = fileAt s"
  "fileAt (s\<lparr>pendingIO := a4\<rparr>) = fileAt s"
  "fileAt (s\<lparr>trace := a5\<rparr>) = fileAt s"
  "fileAt (s\<lparr>spectrogramCanvas := a6\<rparr>) = fileAt s"
  "fileAt (s\<lparr>internalCanvas := a7\<rparr>) = fileAt s"
  "fileAt (s\<lparr>spectrogramImageDataCache := a8\<rparr>) = fileAt s"
  "fileAt (s\<lparr>audioDataCache := a9\<rparr>) = fileAt s"
  "fileAt (s\<lparr>canvasAttached := b1\<rparr>) = fileAt s"
  "fileAt (s\<lparr>resizeListener := b2\<rparr>) = fileAt s"
  "fileAt (s\<lparr>innerWidth := b3\<rparr>) = fileAt s"
  "fileAt (s\<lparr>volume := b4\<rparr>) = fileAt s"
  "fileAt (s\<lparr>selectedIndex := b5\<rparr>) = fileAt s"
  by (simp_all add: fileAt_def fun_eq_iff)

lemma blank_canvas:
  "setHeight h (setWidth w (c :: canvas)) =
     \<lparr>canvas_width = w, canvas_height = h, bitmap = replicate (w * h) transparent\<rparr>"
  by (cases c) (simp add: setHeight_def setWidth_def)

lemma runToQuiescence_quiescent:
  "microtasks s = [] \<Longrightarrow> pendingIO s = [] \<Longrightarrow> runToQuiescence pf n s = Some s"
  by (cases n) simp_all

lemma runToQuiescence_mono:
  "runToQuiescence pf n s = Some s' \<Longrightarrow> runToQuiescence pf (n + k) s = Some s'"
proof (induction n arbitrary: s)
  case 0
  then show ?case by (simp add: runToQuiescence_quiescent split: if_splits)
next
  case (Suc n)
  then show ?case by (auto split: list.splits)
qed

lemma renderRequest_mono:
  assumes "renderRequest pf n s = Some r" and "n \<le> m"
  shows "renderRequest pf m s = Some r"
proof -
  obtain k where m: "m = n + k" using assms(2) le_Suc_ex by blast
  obtain x s1 where u: "useSelectedAudioFileToRender pf bothRenderers s = (x, s1)"
    by (cases "useSelectedAudioFileToRender pf bothRenderers s")
  show ?thesis
  proof (cases x)
    case (Inl e)
    then show ?thesis using assms(1) u by (simp add: renderRequest_def)
  next
    case (Inr q)
    then obtain s' where run: "runToQuiescence pf n s1 = Some s'" and r: "r = (q, s')"
      using assms(1) u by (auto simp add: renderRequest_def)
    have "runToQuiescence pf (n + k) s1 = Some s'" using run by (rule runToQuiescence_mono)
    then show ?thesis using u Inr r m by (simp add: renderRequest_def)
  qed
qed

lemma renderRequest_hit:
  assumes "rendered i d img s"
  shows "\<exists>q s'. renderRequest pf (Suc (Suc 0)) s = Some (q, s')
     \<and> rendered i d img s'
     \<and> promises s' q = Fulfilled VUndefined
     \<and> trace s' = trace s @ [EvRenderMarkings i, EvPutImageData img]
     \<and> audioDataCache s' = audioDataCache s
     \<and> spectrogramImageDataCache s' = spectrogramImageDataCache s
     \<and> spectrogramCanvas s' =
          putImageData img 0 0
            \<lparr>canvas_width = width img, canvas_height = height img,
             bitmap = replicate (width img * height img) transparent\<rparr>"
  using assms
  by (auto simp add: rendered_def exec_defs Let_def split_beta blank_canvas)

lemma renderRequest_miss:
  assumes "quiescent s" "canvasAttached s" "fileAt s (selectedIndex s) = Some f"
    "decodeAudioData pf (content f) = Some buf"
    "audioDataCache s (selectedIndex s) = None"
    "spectrogramImageDataCache s (selectedIndex s) = None"
    "0 < innerWidth s" "0 < spectrumBins (getSpectrumFftData pf buf (config s))"
  shows "\<exists>q s' img. renderRequest pf (Suc (Suc (Suc (Suc (Suc 0))))) s = Some (q, s')
     \<and> rendered (selectedIndex s)
           \<lparr>audioBuffer = buf, spectrumFftData = getSpectrumFftData pf buf (config s)\<rparr> img s'
     \<and> promises s' q = Fulfilled VUndefined
     \<and> trace s' = trace s @ [EvDecode (selectedIndex s), EvAnalyze (selectedIndex s),
           EvRenderMarkings (selectedIndex s), EvRenderSpectrogram (selectedIndex s),
           EvPutImageData img]
     \<and> audioDataCache s' = (audioDataCache s)(selectedIndex s \<mapsto>
           \<lparr>audioBuffer = buf, spectrumFftData = getSpectrumFftData pf buf (config s)\<rparr>)
     \<and> spectrogramImageDataCache s' = (spectrogramImageDataCache s)(selectedIndex s \<mapsto> img)
     \<and> width img = innerWidth s
     \<and> height img = spectrumBins (getSpectrumFftData pf buf (config s))
     \<and> getImageData
           (renderSpectrogram pf
              \<lparr>fileIndex = selectedIndex s, ctx = Internal, rc_audioBuffer = buf,
               snatcitConfig = config s\<rparr>
              (setHeight (spectrumBins (getSpectrumFftData pf buf (config s)))
                 (setWidth (innerWidth s) (internalCanvas s))))
           0 0 (innerWidth s) (spectrumBins (getSpectrumFftData pf buf (config s))) = Inr img
     \<and> spectrogramCanvas s' =
          putImageData img 0 0
            \<lparr>canvas_width = width img, canvas_height = height img,
             bitmap = replicate (width img * height img) transparent\<rparr>"
  using assms
  by (simp add: rendered_def exec_defs Let_def split_beta getImageData_def blank_canvas)

lemma renderRequest_decode_fails:
  assumes "quiescent s" "canvasAttached s" "fileAt s (selectedIndex s) = Some f"
    "decodeAudioData pf (content f) = None"
    "audioDataCache s (selectedIndex s) = None"
  shows "\<exists>q s'. renderRequest pf (Suc (Suc 0)) s = Some (q, s')
     \<and> quiescent s'
     \<and> promises s' q = Pending []
     \<and> trace s' = trace s @ [EvDecode (selectedIndex s)]
     \<and> audioDataCache s' = audioDataCache s
     \<and> spectrogramImageDataCache s' = spectrogramImageDataCache s
     \<and> spectrogramCanvas s' = spectrogramCanvas s"
  using assms
  by (simp add: exec_defs Let_def split_beta)

lemma getAudioData_hit:
  "audioDataCache s i = Some d \<Longrightarrow>
   getAudioData i s =
     (nextPromise s,
      s\<lparr>promises := (promises s)(nextPromise s := Fulfilled (VAudio d)),
        nextPromise := Suc (nextPromise s)\<rparr>)"
  by (simp add: exec_defs)

lemma getSpectrogramImageData_hit:
  "spectrogramImageDataCache s i = Some img \<Longrightarrow>
   getSpectrogramImageData i s =
     (nextPromise s,
      s\<lparr>promises := (promises s)(nextPromise s := Fulfilled (VImage img)),
        nextPromise := Suc (nextPromise s)\<rparr>)"
  by (simp add: exec_defs)

lemma count_list_concat_replicate:
  "count_list (concat (replicate k xs)) x = k * count_list xs x"
  by (induction k) simp_all

lemma renderRequests_hit:
  assumes "rendered i d img s" and "2 \<le> n"
  shows "\<exists>s'. renderRequests pf n k s = Some s' \<and> rendered i d img s'
     \<and> trace s' = trace s @ concat (replicate k [EvRenderMarkings i, EvPutImageData img])"
  using assms(1)
proof (induction k arbitrary: s)
  case 0
  then show ?case by simp
next
  case (Suc k)
  obtain q s1 where r: "renderRequest pf (Suc (Suc 0)) s = Some (q, s1)"
    and s1: "rendered i d img s1"
    and t1: "trace s1 = trace s @ [EvRenderMarkings i, EvPutImageData img]"
    using renderRequest_hit [OF Suc.prems, of pf] by blast
  have rn: "renderRequest pf n s = Some (q, s1)"
    using renderRequest_mono [OF r] assms(2) by simp
  obtain s' where "renderRequests pf n k s1 = Some s'" and "rendered i d img s'"
    and "trace s' = trace s1 @ concat (replicate k [EvRenderMarkings i, EvPutImageData img])"
    using Suc.IH [OF s1] by blast
  then show ?case using rn t1 by simp
qed

text \<open>
  C1: a second call of \<^verbatim>\<open>getAudioData\<close> or \<^verbatim>\<open>getSpectrogramImageData\<close> after a first
  successful one returns a promise fulfilled with the stored value and changes nothing
  but the promise store; across any number of consecutive render requests for an index
  (each started when the one before has come to its end, no resize between them) the file
  is decoded once, analysed once and its spectrogram rendered once.
\<close>

theorem producers_run_once:
  assumes "quiescent s" and "canvasAttached s" and "fileAt s (selectedIndex s) = Some f"
    and "decodeAudioData pf (content f) = Some buf"
    and "audioDataCache s (selectedIndex s) = None"
    and "spectrogramImageDataCache s (selectedIndex s) = None"
    and "0 < innerWidth s" and "0 < spectrumBins (getSpectrumFftData pf buf (config s))"
    and "5 \<le> n"
  shows "\<exists>s' d img. renderRequests pf n (Suc k) s = Some s'
     \<and> count_list (trace s') (EvDecode (selectedIndex s))
         = count_list (trace s) (EvDecode (selectedIndex s)) + 1
     \<and> count_list (trace s') (EvAnalyze (selectedIndex s))
         = count_list (trace s) (EvAnalyze (selectedIndex s)) + 1
     \<and> count_list (trace s') (EvRenderSpectrogram (selectedIndex s))
         = count_list (trace s) (EvRenderSpectrogram (selectedIndex s)) + 1
     \<and> audioDataCache s' (selectedIndex s) = Some d
     \<and> spectrogramImageDataCache s' (selectedIndex s) = Some img
     \<and> getAudioData (selectedIndex s) s' =
           (nextPromise s',
            s'\<lparr>promises := (promises s')(nextPromise s' := Fulfilled (VAudio d)),
               nextPromise := Suc (nextPromise s')\<rparr>)
     \<and> getSpectrogramImageData (selectedIndex s) s' =
           (nextPromise s',
            s'\<lparr>promises := (promises s')(nextPromise s' := Fulfilled (VImage img)),
               nextPromise := Suc (nextPromise s')\<rparr>)"
proof -
  let ?i = "selectedIndex s"
  let ?d = "\<lparr>audioBuffer = buf, spectrumFftData = getSpectrumFftData pf buf (config s)\<rparr>"
  obtain q s1 img where r: "renderRequest pf (Suc (Suc (Suc (Suc (Suc 0))))) s = Some (q, s1)"
    and s1: "rendered ?i ?d img s1"
    and t1: "trace s1 = trace s @ [EvDecode ?i, EvAnalyze ?i, EvRenderMarkings ?i,
               EvRenderSpectrogram ?i, EvPutImageData img]"
    using renderRequest_miss [OF assms(1-8)] by blast
  have rn: "renderRequest pf n s = Some (q, s1)"
    using renderRequest_mono [OF r] assms(9) by simp
  have "2 \<le> n" using assms(9) by simp
  then obtain s' where rs: "renderRequests pf n k s1 = Some s'" and s': "rendered ?i ?d img s'"
    and t': "trace s' = trace s1 @ concat (replicate k [EvRenderMarkings ?i, EvPutImageData img])"
    using renderRequests_hit [OF s1, of n pf k] by blast
  have a: "audioDataCache s' ?i = Some ?d" and b: "spectrogramImageDataCache s' ?i = Some img"
    using s' by (simp_all add: rendered_def)
  have "renderRequests pf n (Suc k) s = Some s'" using rn rs by simp
  moreover have "count_list (trace s') (EvDecode ?i) = count_list (trace s) (EvDecode ?i) + 1"
    by (simp add: t' t1 count_list_concat_replicate)
  moreover have "count_list (trace s') (EvAnalyze ?i) = count_list (trace s) (EvAnalyze ?i) + 1"
    by (simp add: t' t1 count_list_concat_replicate)
  moreover have "count_list (trace s') (EvRenderSpectrogram ?i)
      = count_list (trace s) (EvRenderSpectrogram ?i) + 1"
    by (simp add: t' t1 count_list_concat_replicate)
  ultimately show ?thesis
    using a b getAudioData_hit [OF a] getSpectrogramImageData_hit [OF b] by blast
qed

text \<open>
  Requests that overlap are another matter. Two requests started in the same task, before
  the first has stored anything (a click does this, through \<^verbatim>\<open>componentDidUpdate\<close> and
  through the callback of \<^verbatim>\<open>setState\<close>), both miss the AudioData cache: the file is decoded
  and analysed twice, and the second result replaces the first by an equal value.
\<close>

lemma overlapping_requests_decode_twice:
  assumes "quiescent s" "canvasAttached s" "fileAt s (selectedIndex s) = Some f"
    "decodeAudioData pf (content f) = Some buf"
    "audioDataCache s (selectedIndex s) = None"
    "spectrogramImageDataCache s (selectedIndex s) = None"
    "0 < innerWidth s" "0 < spectrumBins (getSpectrumFftData pf buf (config s))"
  shows "\<exists>s' img.
       runToQuiescence pf (Suc (Suc (Suc (Suc (Suc (Suc (Suc (Suc (Suc 0)))))))))
         (snd (useSelectedAudioFileToRender pf bothRenderers
            (snd (useSelectedAudioFileToRender pf bothRenderers s)))) = Some s'
     \<and> trace s' = trace s @ [EvDecode (selectedIndex s), EvDecode (selectedIndex s),
           EvAnalyze (selectedIndex s), EvRenderMarkings (selectedIndex s),
           EvRenderSpectrogram (selectedIndex s), EvPutImageData img,
           EvAnalyze (selectedIndex s), EvRenderMarkings (selectedIndex s),
           EvPutImageData img]"
  using assms
  by (simp add: exec_defs Let_def split_beta getImageData_def)

lemma testAttached_state:
  "quiescent testAttached" "canvasAttached testAttached"
  "selectedIndex testAttached = 0"
  "fileAt testAttached 0 = Some \<lparr>name = ''a.wav'', content = [82, 73]\<rparr>"
  "decodeAudioData testPlatform [82, 73] = Some 2"
  "audioDataCache testAttached 0 = None"
  "spectrogramImageDataCache testAttached 0 = None"
  "innerWidth testAttached = 3"
  "spectrumBins (getSpectrumFftData testPlatform 2 ()) = 2"
  "trace testAttached = []"
  by (simp_all add: testAttached_def quiescent_def test_defs)

theorem producers_run_once_witness:
  "quiescent testAttached \<and> canvasAttached testAttached
   \<and> fileAt testAttached (selectedIndex testAttached) = Some \<lparr>name = ''a.wav'', content = [82, 73]\<rparr>
   \<and> decodeAudioData testPlatform [82, 73] = Some 2
   \<and> audioDataCache testAttached (selectedIndex testAttached) = None
   \<and> spectrogramImageDataCache testAttached (selectedIndex testAttached) = None
   \<and> (\<exists>s'. renderRequests testPlatform 5 5 testAttached = Some s'
        \<and> count_list (trace s') (EvDecode 0) = 1
        \<and> count_list (trace s') (EvAnalyze 0) = 1
        \<and> count_list (trace s') (EvRenderSpectrogram 0) = 1)"
proof -
  let ?f = "\<lparr>name = ''a.wav'', content = [82, 73]\<rparr>"
  have h: "fileAt testAttached (selectedIndex testAttached) = Some ?f"
    "decodeAudioData testPlatform (content ?f) = Some 2"
    "audioDataCache testAttached (selectedIndex testAttached) = None"
    "spectrogramImageDataCache testAttached (selectedIndex testAttached) = None"
    "0 < innerWidth testAttached"
    "0 < spectrumBins (getSpectrumFftData testPlatform 2 (config testAttached))"
    "(5::nat) \<le> 5"
    by (simp_all add: testAttached_state)
  have "\<exists>s'. renderRequests testPlatform 5 (Suc 4) testAttached = Some s'
        \<and> count_list (trace s') (EvDecode 0) = 1
        \<and> count_list (trace s') (EvAnalyze 0) = 1
        \<and> count_list (trace s') (EvRenderSpectrogram 0) = 1"
    using producers_run_once [OF testAttached_state(1,2) h, of 4]
    by (simp add: testAttached_state) blast
  then show ?thesis by (simp add: testAttached_state)
qed

section \<open>Resizing\<close>

lemma resize_run_ok:
  assumes "quiescent s" "canvasAttached s" "fileAt s (selectedIndex s) = Some f"
    "audioDataCache s (selectedIndex s) = Some d"
    "0 < innerWidth s" "0 < spectrumBins (spectrumFftData d)"
  shows "\<exists>s1 s' img'. windowOnResize pf s = (Inr (), s1)
     \<and> spectrogramImageDataCache s1 = Map.empty \<and> audioDataCache s1 = audioDataCache s
     \<and> runToQuiescence pf (Suc (Suc (Suc (Suc 0)))) s1 = Some s'
     \<and> audioDataCache s' = audioDataCache s
     \<and> spectrogramImageDataCache s' = [selectedIndex s \<mapsto> img']
     \<and> width img' = innerWidth s
     \<and> trace s' = trace s @ [EvRenderMarkings (selectedIndex s),
           EvRenderSpectrogram (selectedIndex s), EvPutImageData img']"
  using assms
  by (simp add: windowOnResize_def resizeAndRerenderCanvas_def exec_defs Let_def split_beta
      getImageData_def)

lemma resize_run_fail:
  assumes "quiescent s" "canvasAttached s" "fileAt s (selectedIndex s) = Some f"
    "audioDataCache s (selectedIndex s) = Some d"
    "innerWidth s = 0 \<or> spectrumBins (spectrumFftData d) = 0"
  shows "\<exists>s1 s'. windowOnResize pf s = (Inr (), s1)
     \<and> spectrogramImageDataCache s1 = Map.empty \<and> audioDataCache s1 = audioDataCache s
     \<and> runToQuiescence pf (Suc (Suc (Suc (Suc 0)))) s1 = Some s'
     \<and> audioDataCache s' = audioDataCache s
     \<and> spectrogramImageDataCache s' = Map.empty
     \<and> trace s' = trace s @ [EvRenderMarkings (selectedIndex s),
           EvRenderSpectrogram (selectedIndex s)]"
  using assms
  by (auto simp add: windowOnResize_def resizeAndRerenderCanvas_def exec_defs Let_def split_beta
      getImageData_def)

text \<open>
  C2: the resize handler empties the spectrogram image cache and leaves the AudioData
  cache as it is; when the render it starts for a previously rendered index has come to
  its end, the spectrogram of that index has been rendered once more, the file has been
  neither decoded nor analysed again, the AudioData cache is still the same and the image
  cache holds no entry of another index.
\<close>

theorem resize_clears_images_only:
  assumes "rendered i d img s"
  shows "\<exists>s1 s'. windowOnResize pf s = (Inr (), s1)
     \<and> spectrogramImageDataCache s1 = Map.empty \<and> audioDataCache s1 = audioDataCache s
     \<and> runToQuiescence pf 4 s1 = Some s'
     \<and> audioDataCache s' = audioDataCache s
     \<and> dom (spectrogramImageDataCache s') \<subseteq> {i}
     \<and> count_list (trace s') (EvRenderSpectrogram i)
         = count_list (trace s) (EvRenderSpectrogram i) + 1
     \<and> count_list (trace s') (EvDecode i) = count_list (trace s) (EvDecode i)
     \<and> count_list (trace s') (EvAnalyze i) = count_list (trace s) (EvAnalyze i)"
proof -
  have q: "quiescent s" and c: "canvasAttached s" and i: "selectedIndex s = i"
    and a: "audioDataCache s (selectedIndex s) = Some d"
    using assms by (simp_all add: rendered_def)
  obtain f where f: "fileAt s (selectedIndex s) = Some f"
    using assms by (auto simp add: rendered_def)
  have four: "(4::nat) = Suc (Suc (Suc (Suc 0)))" by simp
  show ?thesis
  proof (cases "0 < innerWidth s \<and> 0 < spectrumBins (spectrumFftData d)")
    case True
    then obtain s1 s' img' where w: "windowOnResize pf s = (Inr (), s1)"
      "spectrogramImageDataCache s1 = Map.empty" "audioDataCache s1 = audioDataCache s"
      and run: "runToQuiescence pf (Suc (Suc (Suc (Suc 0)))) s1 = Some s'"
      and e: "audioDataCache s' = audioDataCache s"
      "spectrogramImageDataCache s' = [selectedIndex s \<mapsto> img']"
      "trace s' = trace s @ [EvRenderMarkings (selectedIndex s),
           EvRenderSpectrogram (selectedIndex s), EvPutImageData img']"
      using resize_run_ok [OF q c f a, of pf] by blast
    have "runToQuiescence pf 4 s1 = Some s'" using run by (simp only: four)
    then show ?thesis using w e i by simp
  next
    case False
    then have "innerWidth s = 0 \<or> spectrumBins (spectrumFftData d) = 0" by simp
    then obtain s1 s' where w: "windowOnResize pf s = (Inr (), s1)"
      "spectrogramImageDataCache s1 = Map.empty" "audioDataCache s1 = audioDataCache s"
      and run: "runToQuiescence pf (Suc (Suc (Suc (Suc 0)))) s1 = Some s'"
      and e: "audioDataCache s' = audioDataCache s"
      "spectrogramImageDataCache s' = Map.empty"
      "trace s' = trace s @ [EvRenderMarkings (selectedIndex s),
           EvRenderSpectrogram (selectedIndex s)]"
      using resize_run_fail [OF q c f a, of pf] by blast
    have "runToQuiescence pf 4 s1 = Some s'" using run by (simp only: four)
    then show ?thesis using w e i by simp
  qed
qed

section \<open>Failures\<close>

text \<open>
  C3 (as amended): when the decoding of the selected file fails, nothing of the component
  runs any more: the promise of the render request is still pending when no job and no
  read or decode is left, so no failure reaches the caller; no entry is stored in the
  AudioData cache, and the image cache and the visible canvas are as before.
\<close>

theorem decode_failure_leaves_request_pending:
  assumes "quiescent s" and "canvasAttached s" and "fileAt s (selectedIndex s) = Some f"
    and "decodeAudioData pf (content f) = None"
    and "audioDataCache s (selectedIndex s) = None"
  shows "\<exists>q s'. renderRequest pf 2 s = Some (q, s')
     \<and> quiescent s'
     \<and> promises s' q = Pending []
     \<and> audioDataCache s' (selectedIndex s) = None
     \<and> audioDataCache s' = audioDataCache s
     \<and> spectrogramImageDataCache s' = spectrogramImageDataCache s
     \<and> spectrogramCanvas s' = spectrogramCanvas s"
proof -
  have two: "(2::nat) = Suc (Suc 0)" by simp
  obtain q s' where "renderRequest pf (Suc (Suc 0)) s = Some (q, s')"
    and e: "quiescent s'" "promises s' q = Pending []" "audioDataCache s' = audioDataCache s"
      "spectrogramImageDataCache s' = spectrogramImageDataCache s"
      "spectrogramCanvas s' = spectrogramCanvas s"
    using renderRequest_decode_fails [OF assms] by blast
  then have "renderRequest pf 2 s = Some (q, s')" by (simp only: two)
  then show ?thesis using e assms(5) by simp
qed

lemma testBroken_state:
  "quiescent testBroken" "canvasAttached testBroken"
  "selectedIndex testBroken = 0"
  "fileAt testBroken 0 = Some \<lparr>name = ''b.wav'', content = []\<rparr>"
  "decodeAudioData testPlatform [] = None"
  "audioDataCache testBroken 0 = None"
  by (simp_all add: testBroken_def quiescent_def test_defs)

theorem decode_failure_leaves_request_pending_witness:
  "quiescent testBroken \<and> canvasAttached testBroken
   \<and> fileAt testBroken (selectedIndex testBroken) = Some \<lparr>name = ''b.wav'', content = []\<rparr>
   \<and> decodeAudioData testPlatform [] = None
   \<and> audioDataCache testBroken (selectedIndex testBroken) = None
   \<and> (\<exists>q s'. renderRequest testPlatform 2 testBroken = Some (q, s')
        \<and> quiescent s' \<and> promises s' q = Pending [] \<and> audioDataCache s' 0 = None)"
proof -
  let ?f = "\<lparr>name = ''b.wav'', content = []\<rparr>"
  have h: "fileAt testBroken (selectedIndex testBroken) = Some ?f"
    "decodeAudioData testPlatform (content ?f) = None"
    "audioDataCache testBroken (selectedIndex testBroken) = None"
    by (simp_all add: testBroken_state)
  have "\<exists>q s'. renderRequest testPlatform 2 testBroken = Some (q, s')
        \<and> quiescent s' \<and> promises s' q = Pending [] \<and> audioDataCache s' 0 = None"
    using decode_failure_leaves_request_pending [OF testBroken_state(1,2) h]
    by (simp add: testBroken_state) blast
  then show ?thesis by (simp add: testBroken_state)
qed

text \<open>
  C3 as the specification states it (the promise of the render request settles with the
  failure) does not hold on the instance whose file does not decode: the promise of its
  first render request is neither rejected nor fulfilled at the end.
\<close>

theorem decode_failure_counterexample:
  "requestPromise testPlatform 2 testBroken = Some (Pending [])"
proof -
  let ?f = "\<lparr>name = ''b.wav'', content = []\<rparr>"
  have h: "fileAt testBroken (selectedIndex testBroken) = Some ?f"
    "decodeAudioData testPlatform (content ?f) = None"
    "audioDataCache testBroken (selectedIndex testBroken) = None"
    by (simp_all add: testBroken_state)
  have two: "(2::nat) = Suc (Suc 0)" by simp
  obtain q s' where "renderRequest testPlatform (Suc (Suc 0)) testBroken = Some (q, s')"
    and "promises s' q = Pending []"
    using renderRequest_decode_fails [OF testBroken_state(1,2) h] by blast
  then show ?thesis by (simp only: two requestPromise_def) simp
qed

lemma imageRequest_zero_width:
  assumes "quiescent s" "innerWidth s = 0" "fileAt s i = Some f"
    "decodeAudioData pf (content f) = Some buf"
    "audioDataCache s i = None" "spectrogramImageDataCache s i = None"
  shows "imageRequest pf (Suc (Suc (Suc 0))) i s = Some (Rejected IndexSizeError, None)"
  using assms
  by (simp add: imageRequest_def exec_defs Let_def split_beta getImageData_def)

lemma callback_zero_width:
  "innerWidth t = 0 \<Longrightarrow>
   callback pf (SpectrogramThen i) (VAudio d) t =
     (Inl IndexSizeError,
      t\<lparr>internalCanvas :=
           renderSpectrogram pf
             \<lparr>fileIndex = i, ctx = Internal, rc_audioBuffer = audioBuffer d,
              snatcitConfig = config t\<rparr>
             (setHeight (spectrumBins (spectrumFftData d)) (setWidth 0 (internalCanvas t))),
         trace := trace t @ [EvRenderSpectrogram i]\<rparr>)"
  by (simp add: Let_def drawOn_def getImageData_def)

text \<open>
  C4 (as amended): for a display width of zero the spectrogram render operation fails:
  \<^verbatim>\<open>getImageData\<close> raises \<^verbatim>\<open>IndexSizeError\<close> in the callback of
  \<^verbatim>\<open>getSpectrogramImageData\<close>, the promise \<^verbatim>\<open>getSpectrogramImageData\<close> returned is rejected
  with that error, and no image is stored in the cache.
\<close>

theorem zero_width_render_fails:
  assumes "quiescent s" and "innerWidth s = 0" and "fileAt s i = Some f"
    and "decodeAudioData pf (content f) = Some buf"
    and "audioDataCache s i = None" and "spectrogramImageDataCache s i = None"
  shows "imageRequest pf 3 i s = Some (Rejected IndexSizeError, None)
     \<and> fst (callback pf (SpectrogramThen i) (VAudio d) s) = Inl IndexSizeError
     \<and> spectrogramImageDataCache (snd (callback pf (SpectrogramThen i) (VAudio d) s))
         = spectrogramImageDataCache s"
proof -
  have three: "(3::nat) = Suc (Suc (Suc 0))" by simp
  have "imageRequest pf 3 i s = Some (Rejected IndexSizeError, None)"
    using imageRequest_zero_width [OF assms] by (simp only: three)
  then show ?thesis by (simp add: callback_zero_width [OF assms(2)] del: callback.simps)
qed

lemma testCollapsed_state:
  "quiescent testCollapsed" "innerWidth testCollapsed = 0"
  "fileAt testCollapsed 0 = Some \<lparr>name = ''a.wav'', content = [82, 73]\<rparr>"
  "audioDataCache testCollapsed 0 = None"
  "spectrogramImageDataCache testCollapsed 0 = None"
  by (simp_all add: testCollapsed_def quiescent_def test_defs)

theorem zero_width_render_fails_witness:
  "quiescent testCollapsed \<and> innerWidth testCollapsed = 0
   \<and> fileAt testCollapsed 0 = Some \<lparr>name = ''a.wav'', content = [82, 73]\<rparr>
   \<and> decodeAudioData testPlatform [82, 73] = Some 2
   \<and> audioDataCache testCollapsed 0 = None \<and> spectrogramImageDataCache testCollapsed 0 = None
   \<and> imageRequest testPlatform 3 0 testCollapsed = Some (Rejected IndexSizeError, None)
   \<and> fst (callback testPlatform (SpectrogramThen 0) (VAudio testAudio) testCollapsed)
       = Inl IndexSizeError"
proof -
  let ?f = "\<lparr>name = ''a.wav'', content = [82, 73]\<rparr>"
  have h: "decodeAudioData testPlatform (content ?f) = Some 2"
    by (simp add: testAttached_state)
  show ?thesis
    using zero_width_render_fails [OF testCollapsed_state(1,2,3) h testCollapsed_state(4,5),
        of testAudio]
    by (simp add: testCollapsed_state testAttached_state del: callback.simps)
qed

text \<open>
  C4 as the specification states it (an empty buffer and no failure) does not hold on the
  instance in a window of width zero: the render operation raises and leaves no buffer.
\<close>

theorem zero_width_counterexample:
  "imageRequest testPlatform 3 0 testCollapsed = Some (Rejected IndexSizeError, None)"
proof -
  let ?f = "\<lparr>name = ''a.wav'', content = [82, 73]\<rparr>"
  have h: "decodeAudioData testPlatform (content ?f) = Some 2"
    by (simp add: testAttached_state)
  have three: "(3::nat) = Suc (Suc (Suc 0))" by simp
  show ?thesis
    using imageRequest_zero_width [OF testCollapsed_state(1,2,3) h testCollapsed_state(4,5)]
    by (simp only: three)
qed

section \<open>The instance, rendered\<close>

lemma test_image:
  "getImageData (renderSpectrogram testPlatform rc (setHeight 2 (setWidth 3 c))) 0 0 3 2
     = Inr blackImage"
  by (simp add: blank_canvas testPlatform_def getImageData_def blackImage_def pixelAt_def
      upt_rec [of 0] eval_nat_numeral)

lemma test_put:
  "putImageData blackImage 0 0
     \<lparr>canvas_width = width blackImage, canvas_height = height blackImage,
      bitmap = replicate (width blackImage * height blackImage) transparent\<rparr>
   = \<lparr>canvas_width = 3, canvas_height = 2, bitmap = replicate 6 (0, 0, 0, 255)\<rparr>"
  by (simp add: putImageData_def blackImage_def pixelAt_def upt_rec [of 0] eval_nat_numeral)

lemma testRendered_facts:
  "requestEnd testPlatform 5 testAttached = Some testRendered"
  "rendered 0 testAudio blackImage testRendered"
  "trace testRendered = [EvDecode 0, EvAnalyze 0, EvRenderMarkings 0, EvRenderSpectrogram 0,
      EvPutImageData blackImage]"
  "spectrogramCanvas testRendered
     = \<lparr>canvas_width = 3, canvas_height = 2, bitmap = replicate 6 (0, 0, 0, 255)\<rparr>"
proof -
  let ?f = "\<lparr>name = ''a.wav'', content = [82, 73]\<rparr>"
  have h: "fileAt testAttached (selectedIndex testAttached) = Some ?f"
    "decodeAudioData testPlatform (content ?f) = Some 2"
    "audioDataCache testAttached (selectedIndex testAttached) = None"
    "spectrogramImageDataCache testAttached (selectedIndex testAttached) = None"
    "0 < innerWidth testAttached"
    "0 < spectrumBins (getSpectrumFftData testPlatform 2 (config testAttached))"
    by (simp_all add: testAttached_state)
  have d: "\<lparr>audioBuffer = 2, spectrumFftData = getSpectrumFftData testPlatform 2 (config testAttached)\<rparr>
      = testAudio"
    by (simp add: testAudio_def testPlatform_def)
  obtain q s' img where r: "renderRequest testPlatform (Suc (Suc (Suc (Suc (Suc 0))))) testAttached
        = Some (q, s')"
    and e: "rendered (selectedIndex testAttached) testAudio img s'"
      "trace s' = trace testAttached @ [EvDecode (selectedIndex testAttached),
         EvAnalyze (selectedIndex testAttached), EvRenderMarkings (selectedIndex testAttached),
         EvRenderSpectrogram (selectedIndex testAttached), EvPutImageData img]"
    and g: "getImageData
           (renderSpectrogram testPlatform
              \<lparr>fileIndex = selectedIndex testAttached, ctx = Internal, rc_audioBuffer = 2,
               snatcitConfig = config testAttached\<rparr>
              (setHeight (spectrumBins (getSpectrumFftData testPlatform 2 (config testAttached)))
                 (setWidth (innerWidth testAttached) (internalCanvas testAttached))))
           0 0 (innerWidth testAttached)
           (spectrumBins (getSpectrumFftData testPlatform 2 (config testAttached))) = Inr img"
    and c: "spectrogramCanvas s' =
          putImageData img 0 0
            \<lparr>canvas_width = width img, canvas_height = height img,
             bitmap = replicate (width img * height img) transparent\<rparr>"
    using renderRequest_miss [OF testAttached_state(1,2) h] unfolding d by blast
  have five: "(5::nat) = Suc (Suc (Suc (Suc (Suc 0))))" by simp
  have img: "img = blackImage"
    using g test_image by (simp add: testAttached_state)
  have "requestEnd testPlatform 5 testAttached = Some s'"
    unfolding five requestEnd_def r by simp
  then have s': "testRendered = s'" by (simp add: testRendered_def)
  show "requestEnd testPlatform 5 testAttached = Some testRendered"
    using \<open>requestEnd testPlatform 5 testAttached = Some s'\<close> s' by simp
  show "rendered 0 testAudio blackImage testRendered"
    using e(1) img s' by (simp add: testAttached_state)
  show "trace testRendered = [EvDecode 0, EvAnalyze 0, EvRenderMarkings 0, EvRenderSpectrogram 0,
      EvPutImageData blackImage]"
    using e(2) img s' by (simp add: testAttached_state)
  show "spectrogramCanvas testRendered
     = \<lparr>canvas_width = 3, canvas_height = 2, bitmap = replicate 6 (0, 0, 0, 255)\<rparr>"
    using c img s' test_put by simp
qed

theorem resize_clears_images_only_witness:
  "rendered 0 testAudio blackImage testRendered
   \<and> (\<exists>s1 s'. windowOnResize testPlatform testRendered = (Inr (), s1)
        \<and> spectrogramImageDataCache s1 = Map.empty \<and> audioDataCache s1 0 = Some testAudio
        \<and> runToQuiescence testPlatform 4 s1 = Some s'
        \<and> audioDataCache s' 0 = Some testAudio
        \<and> count_list (trace s') (EvRenderSpectrogram 0) = 2
        \<and> count_list (trace s') (EvDecode 0) = 1
        \<and> count_list (trace s') (EvAnalyze 0) = 1)"
proof -
  have a: "audioDataCache testRendered 0 = Some testAudio"
    using testRendered_facts(2) by (simp add: rendered_def)
  obtain s1 s' where "windowOnResize testPlatform testRendered = (Inr (), s1)"
    "spectrogramImageDataCache s1 = Map.empty" "audioDataCache s1 = audioDataCache testRendered"
    "runToQuiescence testPlatform 4 s1 = Some s'"
    "audioDataCache s' = audioDataCache testRendered"
    "count_list (trace s') (EvRenderSpectrogram 0)
       = count_list (trace testRendered) (EvRenderSpectrogram 0) + 1"
    "count_list (trace s') (EvDecode 0) = count_list (trace testRendered) (EvDecode 0)"
    "count_list (trace s') (EvAnalyze 0) = count_list (trace testRendered) (EvAnalyze 0)"
    using resize_clears_images_only [OF testRendered_facts(2), of testPlatform] by blast
  then have "windowOnResize testPlatform testRendered = (Inr (), s1)
        \<and> spectrogramImageDataCache s1 = Map.empty \<and> audioDataCache s1 0 = Some testAudio
        \<and> runToQuiescence testPlatform 4 s1 = Some s'
        \<and> audioDataCache s' 0 = Some testAudio
        \<and> count_list (trace s') (EvRenderSpectrogram 0) = 2
        \<and> count_list (trace s') (EvDecode 0) = 1
        \<and> count_list (trace s') (EvAnalyze 0) = 1"
    by (simp add: testRendered_facts(3) a)
  then show ?thesis using testRendered_facts(2) by blast
qed

section \<open>The order of the two renderers\<close>

text \<open>
  C5, evaluated on the instance. In the first render request the markings renderer draws
  on the visible canvas before the spectrogram is rendered and before its pixels are put
  on that canvas; in a second request, served from the caches, it again draws before the
  pixels are put. Each time the canvas ends as the spectrogram alone (black), the white
  the markings renderer painted is gone.
\<close>

theorem markings_drawn_before_pixels:
  "map_option trace (requestEnd testPlatform 5 testAttached)
     = Some [EvDecode 0, EvAnalyze 0, EvRenderMarkings 0, EvRenderSpectrogram 0,
             EvPutImageData blackImage]
   \<and> map_option spectrogramCanvas (requestEnd testPlatform 5 testAttached)
     = Some \<lparr>canvas_width = 3, canvas_height = 2, bitmap = replicate 6 (0, 0, 0, 255)\<rparr>
   \<and> map_option trace (requestEnd testPlatform 2 testRendered)
     = Some [EvDecode 0, EvAnalyze 0, EvRenderMarkings 0, EvRenderSpectrogram 0,
             EvPutImageData blackImage, EvRenderMarkings 0, EvPutImageData blackImage]
   \<and> map_option spectrogramCanvas (requestEnd testPlatform 2 testRendered)
     = Some \<lparr>canvas_width = 3, canvas_height = 2, bitmap = replicate 6 (0, 0, 0, 255)\<rparr>"
proof -
  have two: "(2::nat) = Suc (Suc 0)" by simp
  obtain q s' where r: "renderRequest testPlatform (Suc (Suc 0)) testRendered = Some (q, s')"
    and t: "trace s' = trace testRendered @ [EvRenderMarkings 0, EvPutImageData blackImage]"
    and c: "spectrogramCanvas s' =
          putImageData blackImage 0 0
            \<lparr>canvas_width = width blackImage, canvas_height = height blackImage,
             bitmap = replicate (width blackImage * height blackImage) transparent\<rparr>"
    using renderRequest_hit [OF testRendered_facts(2), of testPlatform] by blast
  have e: "requestEnd testPlatform 2 testRendered = Some s'"
    unfolding two requestEnd_def r by simp
  show ?thesis
    unfolding e testRendered_facts(1)
    by (simp add: testRendered_facts(3,4) t c test_put)
qed

section \<open>The rendered image\<close>

lemma length_getImageData:
  "length (concat (map (\<lambda>y. map (\<lambda>x. f x y) [0..<w]) [0..<h])) = w * h"
  by (simp add: length_concat comp_def sum_list_triv)

text \<open>
  C6: on a cache miss with a positive display width and a positive number of frequency
  bins the callback of \<^verbatim>\<open>getSpectrogramImageData\<close> returns an image whose width is the
  display width and whose height is the number of frequency bins, with one pixel for
  each position, and stores that image in the cache.
\<close>

theorem rendered_image_dimensions:
  assumes "0 < innerWidth s" and "0 < spectrumBins (spectrumFftData d)"
  shows "\<exists>img s'. callback pf (SpectrogramThen i) (VAudio d) s = (Inr (VImage img), s')
     \<and> width img = innerWidth s
     \<and> height img = spectrumBins (spectrumFftData d)
     \<and> length (data img) = innerWidth s * spectrumBins (spectrumFftData d)
     \<and> spectrogramImageDataCache s' = (spectrogramImageDataCache s)(i \<mapsto> img)"
  using assms
  by (simp add: Let_def drawOn_def getImageData_def length_getImageData mult.commute)

theorem rendered_image_dimensions_witness:
  "0 < innerWidth testWide \<and> 0 < spectrumBins (spectrumFftData testFine)
   \<and> (\<exists>img s'. callback testPlatform (SpectrogramThen 0) (VAudio testFine) testWide
          = (Inr (VImage img), s')
        \<and> width img = 800 \<and> height img = 256 \<and> length (data img) = 800 * 256)"
proof -
  have w: "innerWidth testWide = 800" by (simp add: testWide_def)
  have h: "spectrumBins (spectrumFftData testFine) = 256" by (simp add: testFine_def)
  have a: "0 < innerWidth testWide" and b: "0 < spectrumBins (spectrumFftData testFine)"
    unfolding w h by simp_all
  show ?thesis
    using rendered_image_dimensions [OF a b, of testPlatform 0] a b unfolding w h by blast
qed

section \<open>Markings and the cached image\<close>

text \<open>
  C7: drawing the marks never changes a cached image. The call of the markings renderer
  leaves both caches as they are, for every state and every markings renderer; and when
  a render request for an index whose image is cached has come to its end, in which the
  marks have been drawn on the visible canvas, the image cache is the same and the image
  of the index is the same value.
\<close>

theorem markings_leave_cached_image:
  assumes "rendered i d img s"
  shows "\<exists>q s'. renderRequest pf 2 s = Some (q, s')
     \<and> EvRenderMarkings i \<in> set (trace s')
     \<and> spectrogramImageDataCache s' i = Some img
     \<and> spectrogramImageDataCache s' = spectrogramImageDataCache s
     \<and> spectrogramImageDataCache (callRenderer pf RenderMarkings rc marks t)
         = spectrogramImageDataCache t
     \<and> audioDataCache (callRenderer pf RenderMarkings rc marks t) = audioDataCache t"
proof -
  have two: "(2::nat) = Suc (Suc 0)" by simp
  obtain q s' where r: "renderRequest pf (Suc (Suc 0)) s = Some (q, s')"
    and e: "rendered i d img s'"
      "trace s' = trace s @ [EvRenderMarkings i, EvPutImageData img]"
      "spectrogramImageDataCache s' = spectrogramImageDataCache s"
    using renderRequest_hit [OF assms, of pf] by blast
  have "renderRequest pf 2 s = Some (q, s')" using r by (simp only: two)
  moreover have "spectrogramImageDataCache s' i = Some img"
    using e(1) by (simp add: rendered_def)
  moreover have "spectrogramImageDataCache (callRenderer pf RenderMarkings rc marks t)
         = spectrogramImageDataCache t"
    by (simp add: drawOn_def split: surface.splits)
  ultimately show ?thesis using e(2,3) by simp
qed

theorem markings_leave_cached_image_witness:
  "rendered 0 testAudio blackImage testRendered
   \<and> (\<exists>q s'. renderRequest testPlatform 2 testRendered = Some (q, s')
        \<and> EvRenderMarkings 0 \<in> set (trace s')
        \<and> spectrogramImageDataCache s' 0 = Some blackImage)"
  using markings_leave_cached_image [OF testRendered_facts(2), of testPlatform]
    testRendered_facts(2)
  by blast

end
